theory Spec2Isabelle
  imports Main "HOL-Library.Word" "HOL-Library.Dlist"
begin

section \<open>The scripting host of OpenRCT2: \<open>src/openrct2/scripting/ScriptEngine.cpp\<close>\<close>

text \<open>
  The engine is embedded as explicit state passing over the record \<open>ScriptEngine\<close>, which
  holds the members of the C++ class. Plugin objects live behind \<open>std::shared_ptr\<close> and
  are shared between the registry, the execution scope and the hook engine, so they are
  kept in a store (\<open>heap\<close>) and named by their address. Everything the engine does to the
  outside (console lines, entries into plugin code, registrations, fulfilled promises) is
  appended to \<open>trace\<close>, in the order the statements of the source run.

  Exceptions are values: a call that may throw returns \<open>(Some what, state)\<close> when it
  throws, with the state reached at the throw, and \<open>(None, state)\<close> when it returns.
\<close>

subsection \<open>Collaborators outside the source file\<close>

text \<open>
  Modelled from the spec: the Duktape interpreter and the plugin's JavaScript are not part
  of the source. What a plugin file does when it is entered is given by a \<open>Script\<close>:
  its top-level code may subscribe callbacks to named events through the \<open>context\<close>
  capability, and either throws or registers metadata (name, minimum API version);
  its main function subscribes callbacks to named events and may throw; its stop may
  throw; a callback, named by a string, may throw when an event is delivered to it.
\<close>

record PluginMetadata =
  Name :: string
  MinApiVersion :: int

record Script =
  toplevel_subscribes :: "(string \<times> string) list"
  registerPlugin :: "string + PluginMetadata"
  main_subscribes :: "(string \<times> string) list"
  main_throws :: "string option"
  stop_throws :: "string option"
  callback_throws :: "string \<Rightarrow> string option"

text \<open>
  Modelled from the spec: class \<open>Plugin\<close> (Plugin.h, Plugin.cpp are not under src/).
  A plugin has a source path, metadata, a started flag, and the code it loaded last.
\<close>

record Plugin =
  GetPath :: string
  GetMetadata :: PluginMetadata
  HasStarted :: bool
  loaded :: Script

definition no_script :: Script where
  "no_script = \<lparr>toplevel_subscribes = [], registerPlugin = Inl [], main_subscribes = [],
                 main_throws = None, stop_throws = None, callback_throws = (\<lambda>_. None)\<rparr>"

definition Plugin_ctor :: "string \<Rightarrow> Plugin" where
  "Plugin_ctor path = \<lparr>GetPath = path, GetMetadata = \<lparr>Name = [], MinApiVersion = 0\<rparr>,
                        HasStarted = False, loaded = no_script\<rparr>"

text \<open>The values left on the Duktape stack by an evaluation, as far as \<open>Stringify\<close> and
  \<open>ProcessREPL\<close> look at them.\<close>

datatype duk_type = DUK_TYPE_NONE | DUK_TYPE_UNDEFINED | DUK_TYPE_NULL | DUK_TYPE_BOOLEAN
  | DUK_TYPE_NUMBER | DUK_TYPE_STRING | DUK_TYPE_OBJECT | DUK_TYPE_BUFFER | DUK_TYPE_POINTER
  | DUK_TYPE_LIGHTFUNC

record DukValue =
  duk_get_type :: duk_type
  duk_is_function :: bool
  duk_json_encode :: string
  duk_safe_to_string :: string

text \<open>
  What the engine reads from its environment during one operation: the plugin files
  (\<open>files\<close>, read by \<open>Plugin::Load\<close>), the plugin directory and its scan, the configuration
  flag, whether constructing the file watcher throws, the clock, and the interpreter's
  answer to a REPL snippet (return code and the value on top of the stack).
  \<open>Platform::GetTicks\<close> and \<open>_lastHotReloadCheckTick\<close> are \<open>uint32_t\<close>.
\<close>

record Environment =
  files :: "string \<Rightarrow> Script"
  GetDirectoryPath :: string
  DirectoryExists :: bool
  ScanDirectory :: "string list"
  enable_hot_reloading :: bool
  FileWatcher_throws :: "string option"
  GetTicks :: "32 word"
  duk_peval_string :: "string \<Rightarrow> int \<times> DukValue"

subsection \<open>The observable trace\<close>

datatype PluginEntry = EntryLoad | EntryStart | EntryStop | EntryHook string

text \<open>
  \<open>PluginCall e p scope\<close>: plugin code of object \<open>p\<close> is entered through \<open>e\<close> while
  the execution scope names \<open>scope\<close> as the current plugin. \<open>EntryHook cb\<close> is the
  delivery of an event to the callback \<open>cb\<close>.
\<close>

datatype Event =
    RegisterType string
  | RegisterGlobal string
  | ConsoleWriteLine string
  | ConsoleWriteLineError string
  | Printf string
  | PluginCall PluginEntry nat "nat option"
  | HookUnsubscribeAll nat
  | PluginStoppedCallback string nat
  | PromiseSetValue nat

subsection \<open>The engine state\<close>

text \<open>
  Modelled from the spec: the hook engine (HookEngine.cpp is not under src/) maps an event
  name to the ordered sequence of (owning plugin, callback) pairs. The owner of a
  subscription is the plugin the execution scope names when the subscription is made.
\<close>

type_synonym HookEngine = "(string \<times> (nat option \<times> string) list) list"

text \<open>
  The members of the class are declared in ScriptEngine.h, which is not under src/; their
  types are read off their use in the source file: \<open>_plugins\<close> is a sequence
  (\<open>push_back\<close>), \<open>_evalQueue\<close> a FIFO queue of (promise, command) pairs
  (\<open>front\<close>, \<open>pop\<close>, \<open>emplace\<close>), a promise being named by a number.
  Modelled from the spec: \<open>_changedPluginFiles\<close> is a set of distinct file paths, so that
  \<open>emplace\<close> of a path already in it changes nothing; it is kept as a duplicate-free list.
  \<open>heap\<close>, \<open>next_plugin\<close> and \<open>next_promise\<close> are the store of plugin objects and the
  next unused names of plugin objects and promises; \<open>trace\<close> is the observable trace.
\<close>

record ScriptEngine =
  heap :: "nat \<Rightarrow> Plugin"
  next_plugin :: nat
  next_promise :: nat
  execInfo :: "nat option"
  hookEngine :: HookEngine
  initialised :: bool
  pluginsLoaded :: bool
  pluginsStarted :: bool
  plugins :: "nat list"
  lastHotReloadCheckTick :: "32 word"
  evalQueue :: "(nat \<times> string) list"
  changedPluginFiles :: "string dlist"
  pluginFileWatcher :: "string option"
  pluginStoppedSubscriptions :: "string list"
  trace :: "Event list"

definition OPENRCT2_PLUGIN_API_VERSION :: int where
  "OPENRCT2_PLUGIN_API_VERSION = 1"

text \<open>The state the constructor leaves, every member value-initialised: nothing initialised,
  no plugin, empty queues, the timer at 0, no plugin executing.\<close>

definition ScriptEngine_ctor :: ScriptEngine where
  "ScriptEngine_ctor =
     \<lparr>heap = (\<lambda>_. Plugin_ctor []), next_plugin = 0, next_promise = 0, execInfo = None,
      hookEngine = [], initialised = False, pluginsLoaded = False, pluginsStarted = False,
      plugins = [], lastHotReloadCheckTick = 0, evalQueue = [],
      changedPluginFiles = Dlist.empty, pluginFileWatcher = None,
      pluginStoppedSubscriptions = [], trace = []\<rparr>"

definition emit :: "Event \<Rightarrow> ScriptEngine \<Rightarrow> ScriptEngine" where
  "emit e s = s\<lparr>trace := trace s @ [e]\<rparr>"

definition WriteLine :: "string \<Rightarrow> ScriptEngine \<Rightarrow> ScriptEngine" where
  "WriteLine text s = emit (ConsoleWriteLine text) s"

definition WriteLineError :: "string \<Rightarrow> ScriptEngine \<Rightarrow> ScriptEngine" where
  "WriteLineError text s = emit (ConsoleWriteLineError text) s"

subsection \<open>Hook engine and plugin entry points\<close>

text \<open>Modelled from the spec: \<open>Subscribe\<close> appends to the event's subscriber sequence.\<close>

fun HookEngine_Subscribe :: "string \<Rightarrow> nat option \<Rightarrow> string \<Rightarrow> HookEngine \<Rightarrow> HookEngine" where
  "HookEngine_Subscribe ev owner cb [] = [(ev, [(owner, cb)])]"
| "HookEngine_Subscribe ev owner cb ((ev', subs) # rest) =
     (if ev' = ev then (ev', subs @ [(owner, cb)]) # rest
      else (ev', subs) # HookEngine_Subscribe ev owner cb rest)"

text \<open>Modelled from the spec: \<open>UnsubscribeAll\<close> removes every subscription entry owned by
  the given plugin, across all event names.\<close>

definition HookEngine_UnsubscribeAll :: "nat \<Rightarrow> HookEngine \<Rightarrow> HookEngine" where
  "HookEngine_UnsubscribeAll plugin h =
     map (\<lambda>(ev, subs). (ev, filter (\<lambda>(owner, cb). owner \<noteq> Some plugin) subs)) h"

text \<open>All subscriptions attributed to a plugin, over all event names.\<close>

definition subscriptions_of :: "nat \<Rightarrow> HookEngine \<Rightarrow> (string \<times> string) list" where
  "subscriptions_of plugin h =
     concat (map (\<lambda>(ev, subs). map (\<lambda>(owner, cb). (ev, cb))
                                  (filter (\<lambda>(owner, cb). owner = Some plugin) subs)) h)"

definition UnsubscribeAll :: "nat \<Rightarrow> ScriptEngine \<Rightarrow> ScriptEngine" where
  "UnsubscribeAll plugin s =
     emit (HookUnsubscribeAll plugin)
       (s\<lparr>hookEngine := HookEngine_UnsubscribeAll plugin (hookEngine s)\<rparr>)"

text \<open>
  Modelled from the spec: \<open>Plugin::Load\<close> executes the top-level code of the file at the
  plugin's path. That code runs with the capabilities \<open>Initialise\<close> has bound, so the
  subscriptions it makes reach the hook engine, attributed to the plugin named by the
  execution scope. When it does not throw, the metadata it registers and the code are
  kept. A plugin entry that throws leaves the plugin object as it was.
\<close>

definition Plugin_Load :: "Environment \<Rightarrow> nat \<Rightarrow> ScriptEngine \<Rightarrow> string option \<times> ScriptEngine" where
  "Plugin_Load env plugin s =
     (let script = files env (GetPath (heap s plugin));
          s1 = emit (PluginCall EntryLoad plugin (execInfo s)) s;
          s2 = s1\<lparr>hookEngine := foldl (\<lambda>h (ev, cb). HookEngine_Subscribe ev (execInfo s1) cb h)
                                       (hookEngine s1) (toplevel_subscribes script)\<rparr>
      in case registerPlugin script of
           Inl what \<Rightarrow> (Some what, s2)
         | Inr metadata \<Rightarrow>
             (None, s2\<lparr>heap := (heap s2)(plugin :=
                          (heap s2 plugin)\<lparr>GetMetadata := metadata, loaded := script\<rparr>)\<rparr>))"

text \<open>
  Modelled from the spec: \<open>Plugin::Start\<close> runs the main function of the loaded code. Its
  subscriptions are attributed to the plugin named by the execution scope. When main
  throws, the plugin is left not started.
\<close>

definition Plugin_Start :: "nat \<Rightarrow> ScriptEngine \<Rightarrow> string option \<times> ScriptEngine" where
  "Plugin_Start plugin s =
     (let script = loaded (heap s plugin);
          s1 = emit (PluginCall EntryStart plugin (execInfo s)) s;
          s2 = s1\<lparr>hookEngine := foldl (\<lambda>h (ev, cb). HookEngine_Subscribe ev (execInfo s1) cb h)
                                       (hookEngine s1) (main_subscribes script)\<rparr>
      in case main_throws script of
           Some what \<Rightarrow> (Some what, s2)
         | None \<Rightarrow> (None, s2\<lparr>heap := (heap s2)(plugin := (heap s2 plugin)\<lparr>HasStarted := True\<rparr>)\<rparr>))"

text \<open>Modelled from the spec: \<open>Plugin::Stop\<close> takes a started plugin back to the loaded state.\<close>

definition Plugin_Stop :: "nat \<Rightarrow> ScriptEngine \<Rightarrow> string option \<times> ScriptEngine" where
  "Plugin_Stop plugin s =
     (let script = loaded (heap s plugin);
          s1 = emit (PluginCall EntryStop plugin (execInfo s)) s
      in case stop_throws script of
           Some what \<Rightarrow> (Some what, s1)
         | None \<Rightarrow> (None, s1\<lparr>heap := (heap s1)(plugin := (heap s1 plugin)\<lparr>HasStarted := False\<rparr>)\<rparr>))"

text \<open>
  Modelled from the spec: \<open>Dispatch\<close> of the hook engine invokes the callbacks subscribed to
  an event in subscription order, each inside the execution scope of its owning plugin; a
  callback that throws is caught and reported, and delivery goes on. The hook engine holds
  a weak reference to the owner of a subscription and delivers only to plugins still
  alive. A plugin object is owned by the registry alone, so it is alive exactly as long as
  the registry holds it.
\<close>

definition Dispatch_callback :: "nat \<Rightarrow> string \<Rightarrow> ScriptEngine \<Rightarrow> ScriptEngine" where
  "Dispatch_callback owner cb s =
     (let backup = execInfo s;
          s1 = s\<lparr>execInfo := Some owner\<rparr>;
          s2 = emit (PluginCall (EntryHook cb) owner (execInfo s1)) s1;
          s3 = (case callback_throws (loaded (heap s2 owner)) cb of
                  Some what \<Rightarrow> WriteLineError what s2
                | None \<Rightarrow> s2)
      in s3\<lparr>execInfo := backup\<rparr>)"

definition Dispatch_subscriber :: "nat option \<times> string \<Rightarrow> ScriptEngine \<Rightarrow> ScriptEngine" where
  "Dispatch_subscriber sub s =
     (case fst sub of
        Some owner \<Rightarrow> if owner \<in> set (plugins s) then Dispatch_callback owner (snd sub) s else s
      | None \<Rightarrow> s)"

definition Dispatch :: "string \<Rightarrow> ScriptEngine \<Rightarrow> ScriptEngine" where
  "Dispatch ev s =
     foldl (\<lambda>t sub. Dispatch_subscriber sub t) s
       (concat (map snd (filter (\<lambda>entry. fst entry = ev) (hookEngine s))))"

subsection \<open>Helpers of the source file\<close>

text \<open>\<open>std::to_string\<close> on an integer: its decimal digits, with a minus sign when negative.\<close>

fun to_string_nat :: "nat \<Rightarrow> string" where
  "to_string_nat n =
     (if n < 10 then [''0123456789'' ! n]
      else to_string_nat (n div 10) @ [''0123456789'' ! (n mod 10)])"

definition to_string :: "int \<Rightarrow> string" where
  "to_string i = (if i < 0 then CHR ''-'' # to_string_nat (nat (- i)) else to_string_nat (nat i))"

text \<open>\<open>LogPluginInfo\<close>: writes \<open>[pluginName] message\<close> to the console.\<close>

definition LogPluginInfo :: "nat \<Rightarrow> string \<Rightarrow> ScriptEngine \<Rightarrow> ScriptEngine" where
  "LogPluginInfo plugin message s =
     (let pluginName = Name (GetMetadata (heap s plugin))
      in WriteLine (''['' @ pluginName @ ''] '' @ message) s)"

text \<open>\<open>std::string::find(needle) != npos\<close>.\<close>

fun starts_with :: "string \<Rightarrow> string \<Rightarrow> bool" where
  "starts_with s [] = True"
| "starts_with [] (c # cs) = False"
| "starts_with (d # ds) (c # cs) = (d = c \<and> starts_with ds cs)"

fun string_contains :: "string \<Rightarrow> string \<Rightarrow> bool" where
  "string_contains [] needle = (needle = [])"
| "string_contains (c # cs) needle = (starts_with (c # cs) needle \<or> string_contains cs needle)"

definition ShouldLoadScript :: "string \<Rightarrow> bool" where
  "ShouldLoadScript path =
     (\<not> string_contains path ''/node_modules/''
      \<and> \<not> string_contains path [CHR 0x5C, CHR ''n'', CHR ''o'', CHR ''d'', CHR ''e'', CHR ''_'',
            CHR ''m'', CHR ''o'', CHR ''d'', CHR ''u'', CHR ''l'', CHR ''e'', CHR ''s'', CHR 0x5C])"

text \<open>Modelled from the spec: \<open>Path::Equals\<close> is path equality (Path.cpp is not under src/).\<close>

definition Path_Equals :: "string \<Rightarrow> string \<Rightarrow> bool" where
  "Path_Equals a b = (a = b)"

definition Stringify :: "DukValue \<Rightarrow> string" where
  "Stringify v =
     (if duk_get_type v = DUK_TYPE_OBJECT \<and> \<not> duk_is_function v then duk_json_encode v
      else duk_safe_to_string v)"

subsection \<open>The operations of \<open>ScriptEngine\<close>\<close>

definition Initialise :: "ScriptEngine \<Rightarrow> ScriptEngine" where
  "Initialise s =
     (let s1 = foldl (\<lambda>t n. emit (RegisterType n) t) s
                 [''ScConsole'', ''ScContext'', ''ScDisposable'', ''ScMap'', ''ScNetwork'',
                  ''ScPark'', ''ScPlayer'', ''ScPlayerGroup'', ''ScRide'', ''ScRideObject'',
                  ''ScTile'', ''ScTileElement'', ''ScThing''];
          s2 = foldl (\<lambda>t n. emit (RegisterGlobal n) t) s1
                 [''console'', ''context'', ''map'', ''network'', ''park'']
      in s2\<lparr>initialised := True, pluginsLoaded := False, pluginsStarted := False\<rparr>)"

text \<open>
  \<open>LoadPlugin\<close>: the new plugin object gets a fresh address. The \<open>PluginScope\<close> sets the
  execution scope to the plugin and restores the previous value when the \<open>try\<close> block is
  left, by return or by exception.
\<close>

definition LoadPlugin :: "Environment \<Rightarrow> string \<Rightarrow> ScriptEngine \<Rightarrow> ScriptEngine" where
  "LoadPlugin env path s =
     (let plugin = next_plugin s;
          s1 = s\<lparr>heap := (heap s)(plugin := Plugin_ctor path), next_plugin := Suc plugin\<rparr>;
          backup = execInfo s1;
          s2 = s1\<lparr>execInfo := Some plugin\<rparr>;
          (thrown, s3) = Plugin_Load env plugin s2
      in case thrown of
           Some what \<Rightarrow> WriteLineError what (s3\<lparr>execInfo := backup\<rparr>)
         | None \<Rightarrow>
             (let metadata = GetMetadata (heap s3 plugin);
                  s4 = (if MinApiVersion metadata \<le> OPENRCT2_PLUGIN_API_VERSION
                        then (LogPluginInfo plugin ''Loaded'' s3)\<lparr>plugins := plugins s3 @ [plugin]\<rparr>
                        else LogPluginInfo plugin
                               (''Requires newer API version: v'' @ to_string (MinApiVersion metadata)) s3)
              in s4\<lparr>execInfo := backup\<rparr>))"

definition StopPlugin :: "nat \<Rightarrow> ScriptEngine \<Rightarrow> ScriptEngine" where
  "StopPlugin plugin s =
     (if HasStarted (heap s plugin) then
        (let s1 = UnsubscribeAll plugin s;
             s2 = foldl (\<lambda>t callback. emit (PluginStoppedCallback callback plugin) t) s1
                    (pluginStoppedSubscriptions s1);
             backup = execInfo s2;
             s3 = s2\<lparr>execInfo := Some plugin\<rparr>;
             (thrown, s4) = Plugin_Stop plugin s3;
             s5 = (case thrown of Some what \<Rightarrow> WriteLineError what s4 | None \<Rightarrow> s4)
         in s5\<lparr>execInfo := backup\<rparr>)
      else s)"

text \<open>\<open>SetupHotReloading\<close> installs the watcher; \<open>OnFileChanged\<close> is the callback it is
  given, which the watcher thread calls with the path of a modified file.\<close>

definition SetupHotReloading :: "Environment \<Rightarrow> ScriptEngine \<Rightarrow> ScriptEngine" where
  "SetupHotReloading env s =
     (let base = GetDirectoryPath env
      in case FileWatcher_throws env of
           None \<Rightarrow> s\<lparr>pluginFileWatcher := Some base\<rparr>
         | Some what \<Rightarrow>
             emit (Printf (''Unable to enable hot reloading of plugins: '' @ what @ [CHR 0x0A])) s)"

definition OnFileChanged :: "string \<Rightarrow> ScriptEngine \<Rightarrow> ScriptEngine" where
  "OnFileChanged path s = s\<lparr>changedPluginFiles := Dlist.insert path (changedPluginFiles s)\<rparr>"

text \<open>\<open>std::find_if\<close> over \<open>_plugins\<close>: the first registered plugin with an equal path.\<close>

definition find_if_path :: "string \<Rightarrow> ScriptEngine \<Rightarrow> nat option" where
  "find_if_path path s =
     List.find (\<lambda>plugin. Path_Equals path (GetPath (heap s plugin))) (plugins s)"

text \<open>The \<open>try\<close> block of \<open>AutoReloadPlugins\<close> with its handler.\<close>

definition AutoReloadPlugins_try :: "Environment \<Rightarrow> nat \<Rightarrow> ScriptEngine \<Rightarrow> ScriptEngine" where
  "AutoReloadPlugins_try env plugin s =
     (let s1 = StopPlugin plugin s;
          backup = execInfo s1;
          s2 = s1\<lparr>execInfo := Some plugin\<rparr>;
          (thrown, s3) = Plugin_Load env plugin s2
      in case thrown of
           Some what \<Rightarrow> WriteLineError what (s3\<lparr>execInfo := backup\<rparr>)
         | None \<Rightarrow>
             (let s4 = LogPluginInfo plugin ''Reloaded'' s3;
                  (thrown', s5) = Plugin_Start plugin s4
              in case thrown' of
                   Some what \<Rightarrow> WriteLineError what (s5\<lparr>execInfo := backup\<rparr>)
                 | None \<Rightarrow> s5\<lparr>execInfo := backup\<rparr>))"

text \<open>The body of the \<open>for\<close> loop over the changed paths.\<close>

definition AutoReloadPlugins_body :: "Environment \<Rightarrow> string \<Rightarrow> ScriptEngine \<Rightarrow> ScriptEngine" where
  "AutoReloadPlugins_body env path s =
     (case find_if_path path s of
        Some plugin \<Rightarrow> AutoReloadPlugins_try env plugin s
      | None \<Rightarrow> s)"

fun AutoReloadPlugins_loop :: "Environment \<Rightarrow> string list \<Rightarrow> ScriptEngine \<Rightarrow> ScriptEngine" where
  "AutoReloadPlugins_loop env [] s = s"
| "AutoReloadPlugins_loop env (path # paths) s =
     AutoReloadPlugins_loop env paths (AutoReloadPlugins_body env path s)"

text \<open>The loop visits the elements of the change set in the order of the underlying
  duplicate-free list.\<close>

definition AutoReloadPlugins :: "Environment \<Rightarrow> ScriptEngine \<Rightarrow> ScriptEngine" where
  "AutoReloadPlugins env s =
     (if Dlist.length (changedPluginFiles s) > 0 then
        (AutoReloadPlugins_loop env (list_of_dlist (changedPluginFiles s)) s)
          \<lparr>changedPluginFiles := Dlist.empty\<rparr>
      else s)"

text \<open>The body of the \<open>for\<close> loop of \<open>StartPlugins\<close>.\<close>

definition StartPlugins_body :: "nat \<Rightarrow> ScriptEngine \<Rightarrow> ScriptEngine" where
  "StartPlugins_body plugin s =
     (if \<not> HasStarted (heap s plugin) then
        (let backup = execInfo s;
             s1 = s\<lparr>execInfo := Some plugin\<rparr>;
             (thrown, s2) = Plugin_Start plugin s1;
             s3 = (case thrown of Some what \<Rightarrow> WriteLineError what s2 | None \<Rightarrow> s2)
         in s3\<lparr>execInfo := backup\<rparr>)
      else s)"

fun StartPlugins_loop :: "nat list \<Rightarrow> ScriptEngine \<Rightarrow> ScriptEngine" where
  "StartPlugins_loop [] s = s"
| "StartPlugins_loop (plugin # rest) s = StartPlugins_loop rest (StartPlugins_body plugin s)"

definition StartPlugins :: "ScriptEngine \<Rightarrow> ScriptEngine" where
  "StartPlugins s = (StartPlugins_loop (plugins s) s)\<lparr>pluginsStarted := True\<rparr>"

definition StopPlugins :: "ScriptEngine \<Rightarrow> ScriptEngine" where
  "StopPlugins s = (foldl (\<lambda>t plugin. StopPlugin plugin t) s (plugins s))\<lparr>pluginsStarted := False\<rparr>"

definition UnloadPlugins :: "ScriptEngine \<Rightarrow> ScriptEngine" where
  "UnloadPlugins s =
     (let s1 = StopPlugins s;
          s2 = foldl (\<lambda>t plugin. LogPluginInfo plugin ''Unloaded'' t) s1 (plugins s1)
      in s2\<lparr>plugins := [], pluginsLoaded := False, pluginsStarted := False\<rparr>)"

fun LoadPlugins_loop :: "Environment \<Rightarrow> string list \<Rightarrow> ScriptEngine \<Rightarrow> ScriptEngine" where
  "LoadPlugins_loop env [] s = s"
| "LoadPlugins_loop env (path # paths) s =
     LoadPlugins_loop env paths (if ShouldLoadScript path then LoadPlugin env path s else s)"

definition LoadPlugins :: "Environment \<Rightarrow> ScriptEngine \<Rightarrow> ScriptEngine" where
  "LoadPlugins env s =
     (let s1 = (if \<not> initialised s then Initialise s else s);
          s2 = (if DirectoryExists env then
                  (let s3 = LoadPlugins_loop env (ScanDirectory env) s1
                   in if enable_hot_reloading env then SetupHotReloading env s3 else s3)
                else s1)
      in s2\<lparr>pluginsLoaded := True\<rparr>)"

text \<open>\<open>Eval\<close> returns the future (named by the promise it is tied to) and the new state.\<close>

definition Eval :: "string \<Rightarrow> ScriptEngine \<Rightarrow> nat \<times> ScriptEngine" where
  "Eval cmd s =
     (let barrier = next_promise s
      in (barrier, s\<lparr>next_promise := Suc barrier, evalQueue := evalQueue s @ [(barrier, cmd)]\<rparr>))"

text \<open>One round of the \<open>while\<close> loop of \<open>ProcessREPL\<close>, for the item taken from the front.\<close>

definition ProcessREPL_item :: "Environment \<Rightarrow> nat \<times> string \<Rightarrow> ScriptEngine \<Rightarrow> ScriptEngine" where
  "ProcessREPL_item env item s =
     (let promise = fst item;
          command = snd item;
          (rc, top) = duk_peval_string env command;
          s1 = (if rc \<noteq> 0 then WriteLineError (duk_safe_to_string top) s
                else if duk_get_type top \<noteq> DUK_TYPE_UNDEFINED then WriteLine (Stringify top) s
                else s)
      in emit (PromiseSetValue promise) s1)"

function ProcessREPL :: "Environment \<Rightarrow> ScriptEngine \<Rightarrow> ScriptEngine" where
  "ProcessREPL env s =
     (if length (evalQueue s) > 0 then
        (let item = hd (evalQueue s);
             s1 = s\<lparr>evalQueue := tl (evalQueue s)\<rparr>
         in ProcessREPL env (ProcessREPL_item env item s1))
      else s)"
  by pat_completeness auto
termination
  by (relation "measure (\<lambda>(env, s). length (evalQueue s))")
     (auto simp: ProcessREPL_item_def WriteLine_def WriteLineError_def emit_def Let_def
           split: prod.splits)

declare ProcessREPL.simps [simp del]

definition Update :: "Environment \<Rightarrow> ScriptEngine \<Rightarrow> ScriptEngine" where
  "Update env s =
     (let s1 = (if \<not> initialised s then Initialise s else s);
          s2 = (if pluginsLoaded s1 then
                  (if \<not> pluginsStarted s1 then StartPlugins s1
                   else (let tick = GetTicks env
                         in if tick - lastHotReloadCheckTick s1 > 1000
                            then (AutoReloadPlugins env s1)\<lparr>lastHotReloadCheckTick := tick\<rparr>
                            else s1))
                else s1)
      in ProcessREPL env s2)"

text \<open>\<open>SubscribeToPluginStoppedEvent\<close> is defined in the header (not under src/): it appends an
  observer to \<open>_pluginStoppedSubscriptions\<close>, the sequence \<open>StopPlugin\<close> walks.\<close>

definition SubscribeToPluginStoppedEvent :: "string \<Rightarrow> ScriptEngine \<Rightarrow> ScriptEngine" where
  "SubscribeToPluginStoppedEvent callback s =
     s\<lparr>pluginStoppedSubscriptions := pluginStoppedSubscriptions s @ [callback]\<rparr>"

subsection \<open>Notions used to state the properties\<close>

text \<open>The events an operation appended, given the state before and the state after.\<close>

definition new_events :: "ScriptEngine \<Rightarrow> ScriptEngine \<Rightarrow> Event list" where
  "new_events s s' = drop (length (trace s)) (trace s')"

text \<open>
  The spec's plugin lifecycle, read off the engine state: a plugin outside the registry is
  \<open>Unloaded\<close>; a registered one is \<open>Started\<close> or \<open>Loaded\<close> (the spec's Stopped is Loaded).
\<close>

datatype PluginState = Unloaded | Loaded | Started

definition lifecycle :: "ScriptEngine \<Rightarrow> nat \<Rightarrow> PluginState" where
  "lifecycle s plugin =
     (if plugin \<in> set (plugins s) then (if HasStarted (heap s plugin) then Started else Loaded)
      else Unloaded)"

text \<open>The operations a host can perform on the engine, each with the environment it runs
  in; \<open>OpDispatch\<close> is the game raising an event.\<close>

datatype Operation =
    OpInitialise
  | OpLoadPlugins
  | OpLoadPlugin string
  | OpStopPlugin nat
  | OpAutoReloadPlugins
  | OpUnloadPlugins
  | OpStartPlugins
  | OpStopPlugins
  | OpUpdate
  | OpEval string
  | OpFileChanged string
  | OpSubscribeToPluginStoppedEvent string
  | OpDispatch string

fun perform :: "Environment \<Rightarrow> Operation \<Rightarrow> ScriptEngine \<Rightarrow> ScriptEngine" where
  "perform env OpInitialise s = Initialise s"
| "perform env OpLoadPlugins s = LoadPlugins env s"
| "perform env (OpLoadPlugin path) s = LoadPlugin env path s"
| "perform env (OpStopPlugin plugin) s = StopPlugin plugin s"
| "perform env OpAutoReloadPlugins s = AutoReloadPlugins env s"
| "perform env OpUnloadPlugins s = UnloadPlugins s"
| "perform env OpStartPlugins s = StartPlugins s"
| "perform env OpStopPlugins s = StopPlugins s"
| "perform env OpUpdate s = Update env s"
| "perform env (OpEval cmd) s = snd (Eval cmd s)"
| "perform env (OpFileChanged path) s = OnFileChanged path s"
| "perform env (OpSubscribeToPluginStoppedEvent callback) s = SubscribeToPluginStoppedEvent callback s"
| "perform env (OpDispatch ev) s = Dispatch ev s"

fun run :: "(Environment \<times> Operation) list \<Rightarrow> ScriptEngine \<Rightarrow> ScriptEngine" where
  "run [] s = s"
| "run ((env, op) # ops) s = run ops (perform env op s)"

text \<open>A plugin object that is not registered and has never been started, stopped or given
  an event.\<close>

definition untouched :: "nat \<Rightarrow> ScriptEngine \<Rightarrow> bool" where
  "untouched r s =
     (r \<notin> set (plugins s) \<and> execInfo s \<noteq> Some r \<and> \<not> HasStarted (heap s r)
      \<and> (\<forall>scope. PluginCall EntryStart r scope \<notin> set (trace s))
      \<and> (\<forall>scope. PluginCall EntryStop r scope \<notin> set (trace s))
      \<and> (\<forall>cb scope. PluginCall (EntryHook cb) r scope \<notin> set (trace s)))"

text \<open>
  The spec's words for one REPL item: an error line on evaluation failure, a normal line
  for a result that is not undefined, and the completion signal last.
\<close>

definition REPL_output :: "Environment \<Rightarrow> string \<Rightarrow> Event list" where
  "REPL_output env cmd =
     (if fst (duk_peval_string env cmd) \<noteq> 0
      then [ConsoleWriteLineError (duk_safe_to_string (snd (duk_peval_string env cmd)))]
      else if duk_get_type (snd (duk_peval_string env cmd)) \<noteq> DUK_TYPE_UNDEFINED
      then [ConsoleWriteLine (Stringify (snd (duk_peval_string env cmd)))]
      else [])"

definition REPL_events :: "Environment \<Rightarrow> (nat \<times> string) list \<Rightarrow> Event list" where
  "REPL_events env queue =
     concat (map (\<lambda>item. REPL_output env (snd item) @ [PromiseSetValue (fst item)]) queue)"

text \<open>The registrations one run of \<open>Initialise\<close> performs.\<close>

definition registrations :: "Event list" where
  "registrations =
     map RegisterType [''ScConsole'', ''ScContext'', ''ScDisposable'', ''ScMap'', ''ScNetwork'',
                       ''ScPark'', ''ScPlayer'', ''ScPlayerGroup'', ''ScRide'', ''ScRideObject'',
                       ''ScTile'', ''ScTileElement'', ''ScThing'']
     @ map RegisterGlobal [''console'', ''context'', ''map'', ''network'', ''park'']"

fun is_registration :: "Event \<Rightarrow> bool" where
  "is_registration (RegisterType n) = True"
| "is_registration (RegisterGlobal n) = True"
| "is_registration e = False"

fun is_output :: "Event \<Rightarrow> bool" where
  "is_output (ConsoleWriteLine text) = True"
| "is_output (ConsoleWriteLineError text) = True"
| "is_output (Printf text) = True"
| "is_output e = False"

fun is_plugin_call :: "Event \<Rightarrow> bool" where
  "is_plugin_call (PluginCall entry plugin scope) = True"
| "is_plugin_call e = False"

subsection \<open>Example inputs\<close>

text \<open>The scenario of the spec: \<open>a.js\<close> asks for API version 1, \<open>b.js\<close> for 999; the
  top-level code of \<open>b.js\<close> subscribes a callback before it registers its metadata.\<close>

definition a_js :: Script where
  "a_js = \<lparr>toplevel_subscribes = [],
           registerPlugin = Inr \<lparr>Name = ''a'', MinApiVersion = 1\<rparr>,
           main_subscribes = [(''interval.tick'', ''onTick'')],
           main_throws = None, stop_throws = Some ''stop failed'',
           callback_throws = (\<lambda>_. None)\<rparr>"

definition b_js :: Script where
  "b_js = \<lparr>toplevel_subscribes = [(''interval.tick'', ''onLoadTick'')],
           registerPlugin = Inr \<lparr>Name = ''b'', MinApiVersion = 999\<rparr>,
           main_subscribes = [(''interval.tick'', ''onTick'')],
           main_throws = None, stop_throws = None,
           callback_throws = (\<lambda>_. None)\<rparr>"

definition c_js :: Script where
  "c_js = \<lparr>toplevel_subscribes = [],
           registerPlugin = Inr \<lparr>Name = ''c'', MinApiVersion = 0\<rparr>,
           main_subscribes = [], main_throws = Some ''main failed'', stop_throws = None,
           callback_throws = (\<lambda>_. None)\<rparr>"

definition number_one :: DukValue where
  "number_one = \<lparr>duk_get_type = DUK_TYPE_NUMBER, duk_is_function = False,
                  duk_json_encode = ''1'', duk_safe_to_string = ''1''\<rparr>"

definition reference_error :: DukValue where
  "reference_error = \<lparr>duk_get_type = DUK_TYPE_OBJECT, duk_is_function = False,
                       duk_json_encode = ''{}'',
                       duk_safe_to_string = ''ReferenceError: identifier x undefined''\<rparr>"

text \<open>The snippet \<open>x\<close> fails to evaluate; every other snippet evaluates to 1.\<close>

definition env_ab :: Environment where
  "env_ab = \<lparr>files = (\<lambda>path. if path = ''a.js'' then a_js
                             else if path = ''c.js'' then c_js else b_js),
             GetDirectoryPath = ''plugin'', DirectoryExists = True,
             ScanDirectory = [''c.js'', ''a.js'', ''b.js''],
             enable_hot_reloading = True, FileWatcher_throws = None, GetTicks = 1000,
             duk_peval_string = (\<lambda>cmd. if cmd = ''x'' then (1, reference_error)
                                        else (0, number_one))\<rparr>"

text \<open>The same environment after \<open>a.js\<close> was overwritten with the text of \<open>b.js\<close>, later.\<close>

definition env_changed :: Environment where
  "env_changed = env_ab\<lparr>files := (\<lambda>path. b_js), GetTicks := 5000\<rparr>"

definition env_no_directory :: Environment where
  "env_no_directory = env_ab\<lparr>DirectoryExists := False\<rparr>"

text \<open>Plugins loaded and started by the first \<open>Update\<close>.\<close>

definition started_engine :: ScriptEngine where
  "started_engine = Update env_ab (LoadPlugins env_ab ScriptEngine_ctor)"

text \<open>The same engine with one observer of stopped plugins.\<close>

definition observed_engine :: ScriptEngine where
  "observed_engine = SubscribeToPluginStoppedEvent ''window'' started_engine"

text \<open>Plugins loaded, none started yet.\<close>

definition loaded_engine :: ScriptEngine where
  "loaded_engine = LoadPlugins env_ab ScriptEngine_ctor"

text \<open>Three snippets queued, the second of which fails to evaluate.\<close>

definition queued_engine :: ScriptEngine where
  "queued_engine = snd (Eval ''2'' (snd (Eval ''x'' (snd (Eval ''1'' started_engine)))))"

text \<open>The watcher has reported a change of \<open>a.js\<close>; the last hot-reload check was at tick 0.\<close>

definition pending_engine :: ScriptEngine where
  "pending_engine = OnFileChanged ''a.js'' started_engine"

text \<open>A host that loads \<open>a.js\<close>, then, after \<open>b.js\<close> was refused, starts, reloads, stops
  and unloads its plugins.\<close>

definition ops_before :: "(Environment \<times> Operation) list" where
  "ops_before = [(env_ab, OpInitialise), (env_ab, OpLoadPlugin ''a.js'')]"

definition ops_after :: "(Environment \<times> Operation) list" where
  "ops_after = [(env_ab, OpStartPlugins), (env_ab, OpDispatch ''interval.tick''),
                (env_ab, OpFileChanged ''b.js''), (env_ab, OpFileChanged ''a.js''),
                (env_changed, OpAutoReloadPlugins), (env_ab, OpDispatch ''interval.tick''),
                (env_ab, OpStopPlugin 1), (env_ab, OpStopPlugins), (env_ab, OpUpdate),
                (env_ab, OpUnloadPlugins), (env_ab, OpDispatch ''interval.tick'')]"

text \<open>\<open>LoadPlugins\<close> called twice without unloading in between: \<open>a.js\<close> is registered as
  the objects 1 and 4; then the watcher reports a change of \<open>a.js\<close>.\<close>

definition twice_loaded :: ScriptEngine where
  "twice_loaded = OnFileChanged ''a.js'' (LoadPlugins env_ab (Update env_ab (LoadPlugins env_ab ScriptEngine_ctor)))"

text \<open>A file whose top-level code throws.\<close>

definition broken_js :: Script where
  "broken_js = \<lparr>toplevel_subscribes = [], registerPlugin = Inl ''SyntaxError: parse error'',
                main_subscribes = [], main_throws = None, stop_throws = None,
                callback_throws = (\<lambda>_. None)\<rparr>"

definition env_broken :: Environment where
  "env_broken = env_ab\<lparr>files := (\<lambda>path. broken_js), GetTicks := 5000\<rparr>"

section \<open>Properties\<close>

subsection \<open>Basic facts about the trace and the hook engine\<close>

lemma foldl_emit: "foldl (\<lambda>t x. emit (f x) t) s xs = s\<lparr>trace := trace s @ map f xs\<rparr>"
  by (induction xs arbitrary: s) (simp_all add: emit_def)

lemma subscriptions_of_UnsubscribeAll:
  "subscriptions_of plugin (HookEngine_UnsubscribeAll plugin h) = []"
  by (induction h) (auto simp: subscriptions_of_def HookEngine_UnsubscribeAll_def filter_empty_conv)

subsection \<open>StopPlugin\<close>

text \<open>
  Claim C2. \<open>StopPlugin\<close> leaves the engine as it is when the plugin has not started.
  Otherwise the events it appends are, in this order: the removal of all hook subscriptions
  of the plugin, one notification per plugin-stopped observer, the entry into the plugin's
  Stop with the execution scope naming that plugin, and, when Stop throws, the error line
  on the console. \<open>StopPlugin\<close> returns in both cases (the exception does not leave it),
  no subscription remains attributed to the plugin, and the execution scope is restored.
\<close>

theorem StopPlugin_spec:
  "(\<not> HasStarted (heap s plugin) \<longrightarrow> StopPlugin plugin s = s)
   \<and> (HasStarted (heap s plugin) \<longrightarrow>
        trace (StopPlugin plugin s) =
          trace s @ [HookUnsubscribeAll plugin]
          @ map (\<lambda>callback. PluginStoppedCallback callback plugin) (pluginStoppedSubscriptions s)
          @ [PluginCall EntryStop plugin (Some plugin)]
          @ (case stop_throws (loaded (heap s plugin)) of
               Some what \<Rightarrow> [ConsoleWriteLineError what] | None \<Rightarrow> [])
        \<and> subscriptions_of plugin (hookEngine (StopPlugin plugin s)) = []
        \<and> execInfo (StopPlugin plugin s) = execInfo s
        \<and> plugins (StopPlugin plugin s) = plugins s)"
  unfolding StopPlugin_def UnsubscribeAll_def foldl_emit Plugin_Stop_def WriteLineError_def
  by (simp add: emit_def Let_def subscriptions_of_UnsubscribeAll split: option.splits)

theorem StopPlugin_spec_witness:
  "\<not> HasStarted (heap observed_engine 0)
   \<and> StopPlugin 0 observed_engine = observed_engine
   \<and> HasStarted (heap observed_engine 1)
   \<and> subscriptions_of 1 (hookEngine observed_engine) = [(''interval.tick'', ''onTick'')]
   \<and> trace (StopPlugin 1 observed_engine) =
       trace observed_engine
       @ [HookUnsubscribeAll 1, PluginStoppedCallback ''window'' 1,
          PluginCall EntryStop 1 (Some 1), ConsoleWriteLineError ''stop failed'']
   \<and> subscriptions_of 1 (hookEngine (StopPlugin 1 observed_engine)) = []"
proof -
  have not_started: "\<not> HasStarted (heap observed_engine 0)"
    by code_simp
  have started: "HasStarted (heap observed_engine 1)"
    by code_simp
  have subscribed: "subscriptions_of 1 (hookEngine observed_engine) = [(''interval.tick'', ''onTick'')]"
    by code_simp
  have observers: "pluginStoppedSubscriptions observed_engine = [''window'']"
    by code_simp
  have stop: "stop_throws (loaded (heap observed_engine 1)) = Some ''stop failed''"
    by code_simp
  show ?thesis
    using StopPlugin_spec [of observed_engine 0] StopPlugin_spec [of observed_engine 1]
      not_started started subscribed observers stop
    by simp
qed

subsection \<open>StartPlugins\<close>

lemma new_events_append: "trace s' = trace s @ ev \<Longrightarrow> new_events s s' = ev"
  by (simp add: new_events_def)

lemma StartPlugins_body_trace:
  "trace (StartPlugins_body plugin s) =
     trace s @ (if HasStarted (heap s plugin) then []
                else PluginCall EntryStart plugin (Some plugin)
                     # (case main_throws (loaded (heap s plugin)) of
                          Some what \<Rightarrow> [ConsoleWriteLineError what] | None \<Rightarrow> []))"
  by (simp add: StartPlugins_body_def Plugin_Start_def WriteLineError_def emit_def Let_def
        split: option.splits)

lemma StartPlugins_body_heap:
  "heap (StartPlugins_body plugin s) q =
     (if q = plugin \<and> \<not> HasStarted (heap s plugin) \<and> main_throws (loaded (heap s plugin)) = None
      then (heap s plugin)\<lparr>HasStarted := True\<rparr> else heap s q)"
  by (simp add: StartPlugins_body_def Plugin_Start_def WriteLineError_def emit_def Let_def
        split: option.splits)

lemma StartPlugins_body_plugins: "plugins (StartPlugins_body plugin s) = plugins s"
  by (simp add: StartPlugins_body_def Plugin_Start_def WriteLineError_def emit_def Let_def
        split: option.splits)

lemma StartPlugins_loop_plugins: "plugins (StartPlugins_loop ps s) = plugins s"
  by (induction ps arbitrary: s) (simp_all add: StartPlugins_body_plugins)

lemma StartPlugins_loop_trace: "\<exists>ev. trace (StartPlugins_loop ps s) = trace s @ ev"
proof (induction ps arbitrary: s)
  case Nil
  show ?case by simp
next
  case (Cons p ps)
  obtain ev where "trace (StartPlugins_loop ps (StartPlugins_body p s)) = trace (StartPlugins_body p s) @ ev"
    using Cons.IH by blast
  then show ?case
    by (simp add: StartPlugins_body_trace)
qed

lemma StartPlugins_loop_calls:
  assumes "p \<in> set ps" and "\<not> HasStarted (heap s p)"
  shows "PluginCall EntryStart p (Some p) \<in> set (new_events s (StartPlugins_loop ps s))
       \<and> (\<forall>what. main_throws (loaded (heap s p)) = Some what
            \<longrightarrow> ConsoleWriteLineError what \<in> set (new_events s (StartPlugins_loop ps s)))"
  using assms
proof (induction ps arbitrary: s)
  case Nil
  then show ?case by simp
next
  case (Cons q ps)
  let ?t = "StartPlugins_body q s"
  obtain ev where ev: "trace (StartPlugins_loop ps ?t) = trace ?t @ ev"
    using StartPlugins_loop_trace by blast
  show ?case
  proof (cases "q = p")
    case True
    have "new_events s (StartPlugins_loop (q # ps) s) =
            PluginCall EntryStart p (Some p)
            # (case main_throws (loaded (heap s p)) of
                 Some what \<Rightarrow> [ConsoleWriteLineError what] | None \<Rightarrow> []) @ ev"
      using ev True Cons.prems(2) by (intro new_events_append) (simp add: StartPlugins_body_trace)
    then show ?thesis by auto
  next
    case False
    then have "p \<in> set ps" and "\<not> HasStarted (heap ?t p)" and same: "heap ?t p = heap s p"
      using Cons.prems by (simp_all add: StartPlugins_body_heap)
    then have ih: "PluginCall EntryStart p (Some p) \<in> set ev
       \<and> (\<forall>what. main_throws (loaded (heap s p)) = Some what \<longrightarrow> ConsoleWriteLineError what \<in> set ev)"
      using Cons.IH [of ?t] new_events_append [OF ev] by simp
    have "\<exists>ev0. new_events s (StartPlugins_loop (q # ps) s) = ev0 @ ev"
      using ev by (simp add: new_events_def StartPlugins_body_trace)
    then show ?thesis using ih by auto
  qed
qed

lemma StartPlugins_loop_started:
  assumes "p \<in> set ps" and "main_throws (loaded (heap s p)) = None"
  shows "HasStarted (heap (StartPlugins_loop ps s) p)"
proof -
  have keep: "HasStarted (heap t p) \<Longrightarrow> HasStarted (heap (StartPlugins_loop qs t) p)" for qs t
    by (induction qs arbitrary: t) (simp_all add: StartPlugins_body_heap)
  show ?thesis using assms
  proof (induction ps arbitrary: s)
    case Nil
    then show ?case by simp
  next
    case (Cons q ps)
    show ?case
    proof (cases "q = p")
      case True
      then have "HasStarted (heap (StartPlugins_body q s) p)"
        using Cons.prems(2) by (simp add: StartPlugins_body_heap)
      then show ?thesis by (simp add: keep)
    next
      case False
      then have "p \<in> set ps" and "main_throws (loaded (heap (StartPlugins_body q s) p)) = None"
        using Cons.prems by (simp_all add: StartPlugins_body_heap)
      then show ?thesis using Cons.IH by simp
    qed
  qed
qed

text \<open>
  Claim C3. \<open>StartPlugins\<close> enters Start, inside the plugin's own execution scope, for
  every registered plugin that has not started. When a plugin's Start throws, the error
  line is written to the console; \<open>StartPlugins\<close> still returns, and every registered
  plugin whose main function does not throw is started afterwards, whatever the other
  plugins did. The plugins-started flag is set at the end and the registry is unchanged.
\<close>

theorem StartPlugins_spec:
  "pluginsStarted (StartPlugins s)
   \<and> plugins (StartPlugins s) = plugins s
   \<and> (\<forall>p \<in> set (plugins s).
        (\<not> HasStarted (heap s p) \<longrightarrow>
           PluginCall EntryStart p (Some p) \<in> set (new_events s (StartPlugins s))
           \<and> (\<forall>what. main_throws (loaded (heap s p)) = Some what \<longrightarrow>
                 ConsoleWriteLineError what \<in> set (new_events s (StartPlugins s))))
        \<and> (main_throws (loaded (heap s p)) = None \<longrightarrow> HasStarted (heap (StartPlugins s) p)))"
proof -
  have ev: "new_events s (StartPlugins s) = new_events s (StartPlugins_loop (plugins s) s)"
    by (simp add: new_events_def StartPlugins_def)
  show ?thesis
    unfolding ev
    using StartPlugins_loop_calls [of _ "plugins s" s] StartPlugins_loop_started [of _ "plugins s" s]
    by (simp add: StartPlugins_def StartPlugins_loop_plugins)
qed

theorem StartPlugins_spec_witness:
  "plugins loaded_engine = [0, 1]
   \<and> \<not> HasStarted (heap loaded_engine 0) \<and> \<not> HasStarted (heap loaded_engine 1)
   \<and> main_throws (loaded (heap loaded_engine 0)) = Some ''main failed''
   \<and> main_throws (loaded (heap loaded_engine 1)) = None
   \<and> PluginCall EntryStart 0 (Some 0) \<in> set (new_events loaded_engine (StartPlugins loaded_engine))
   \<and> ConsoleWriteLineError ''main failed'' \<in> set (new_events loaded_engine (StartPlugins loaded_engine))
   \<and> PluginCall EntryStart 1 (Some 1) \<in> set (new_events loaded_engine (StartPlugins loaded_engine))
   \<and> HasStarted (heap (StartPlugins loaded_engine) 1)
   \<and> pluginsStarted (StartPlugins loaded_engine)"
proof -
  have registry: "plugins loaded_engine = [0, 1]"
    by code_simp
  have not_started: "\<not> HasStarted (heap loaded_engine 0)" "\<not> HasStarted (heap loaded_engine 1)"
    by code_simp+
  have throws: "main_throws (loaded (heap loaded_engine 0)) = Some ''main failed''"
    by code_simp
  have returns: "main_throws (loaded (heap loaded_engine 1)) = None"
    by code_simp
  show ?thesis
    using StartPlugins_spec [of loaded_engine] registry not_started throws returns
    by simp
qed

subsection \<open>The REPL queue\<close>

lemma ProcessREPL_item_eq:
  "ProcessREPL_item env item s =
     s\<lparr>trace := trace s @ REPL_output env (snd item) @ [PromiseSetValue (fst item)]\<rparr>"
  by (simp add: ProcessREPL_item_def REPL_output_def WriteLine_def WriteLineError_def emit_def
        Let_def split: prod.splits)

lemma ProcessREPL_eq:
  "ProcessREPL env s = s\<lparr>evalQueue := [], trace := trace s @ REPL_events env (evalQueue s)\<rparr>"
proof (induction env s rule: ProcessREPL.induct)
  case (1 env s)
  show ?case
  proof (cases "evalQueue s")
    case Nil
    then show ?thesis
      by (subst ProcessREPL.simps) (simp add: REPL_events_def)
  next
    case (Cons item rest)
    let ?t = "ProcessREPL_item env (hd (evalQueue s)) (s\<lparr>evalQueue := tl (evalQueue s)\<rparr>)"
    have ih: "ProcessREPL env ?t = ?t\<lparr>evalQueue := [], trace := trace ?t @ REPL_events env (evalQueue ?t)\<rparr>"
      by (rule "1.IH" [OF _ refl refl]) (simp add: Cons)
    have step: "ProcessREPL env s = ProcessREPL env ?t"
      by (subst ProcessREPL.simps) (simp add: Cons Let_def)
    show ?thesis
      unfolding step ih using Cons by (simp add: ProcessREPL_item_eq REPL_events_def)
  qed
qed

text \<open>The lifecycle operations neither read nor write the REPL queue.\<close>

lemma Initialise_queue:
  "Initialise (s\<lparr>next_promise := n, evalQueue := q\<rparr>) = (Initialise s)\<lparr>next_promise := n, evalQueue := q\<rparr>"
  unfolding Initialise_def foldl_emit by (simp add: Let_def)

lemma StartPlugins_body_queue:
  "StartPlugins_body p (s\<lparr>next_promise := n, evalQueue := q\<rparr>) =
     (StartPlugins_body p s)\<lparr>next_promise := n, evalQueue := q\<rparr>"
  by (simp add: StartPlugins_body_def Plugin_Start_def WriteLineError_def emit_def Let_def
        split: option.splits)

lemma StartPlugins_loop_queue:
  "StartPlugins_loop ps (s\<lparr>next_promise := n, evalQueue := q\<rparr>) =
     (StartPlugins_loop ps s)\<lparr>next_promise := n, evalQueue := q\<rparr>"
  by (induction ps arbitrary: s) (simp_all add: StartPlugins_body_queue)

lemma StartPlugins_queue:
  "StartPlugins (s\<lparr>next_promise := n, evalQueue := q\<rparr>) =
     (StartPlugins s)\<lparr>next_promise := n, evalQueue := q\<rparr>"
  by (simp add: StartPlugins_def StartPlugins_loop_queue)

lemma StopPlugin_queue:
  "StopPlugin p (s\<lparr>next_promise := n, evalQueue := q\<rparr>) =
     (StopPlugin p s)\<lparr>next_promise := n, evalQueue := q\<rparr>"
  unfolding StopPlugin_def UnsubscribeAll_def foldl_emit Plugin_Stop_def WriteLineError_def
  by (simp add: emit_def Let_def split: option.splits)

lemma AutoReloadPlugins_try_queue:
  "AutoReloadPlugins_try env p (s\<lparr>next_promise := n, evalQueue := q\<rparr>) =
     (AutoReloadPlugins_try env p s)\<lparr>next_promise := n, evalQueue := q\<rparr>"
  unfolding AutoReloadPlugins_try_def StopPlugin_queue
  by (simp add: Plugin_Load_def Plugin_Start_def LogPluginInfo_def WriteLine_def
        WriteLineError_def emit_def Let_def split: option.splits sum.splits)

lemma AutoReloadPlugins_body_queue:
  "AutoReloadPlugins_body env path (s\<lparr>next_promise := n, evalQueue := q\<rparr>) =
     (AutoReloadPlugins_body env path s)\<lparr>next_promise := n, evalQueue := q\<rparr>"
  by (simp add: AutoReloadPlugins_body_def find_if_path_def AutoReloadPlugins_try_queue
        split: option.splits)

lemma AutoReloadPlugins_loop_queue:
  "AutoReloadPlugins_loop env paths (s\<lparr>next_promise := n, evalQueue := q\<rparr>) =
     (AutoReloadPlugins_loop env paths s)\<lparr>next_promise := n, evalQueue := q\<rparr>"
  by (induction paths arbitrary: s) (simp_all add: AutoReloadPlugins_body_queue)

lemma AutoReloadPlugins_queue:
  "AutoReloadPlugins env (s\<lparr>next_promise := n, evalQueue := q\<rparr>) =
     (AutoReloadPlugins env s)\<lparr>next_promise := n, evalQueue := q\<rparr>"
  by (simp add: AutoReloadPlugins_def AutoReloadPlugins_loop_queue)


lemma REPL_events_append: "REPL_events env (q @ q') = REPL_events env q @ REPL_events env q'"
  by (simp add: REPL_events_def)

lemma Initialise_eq:
  "Initialise s = s\<lparr>trace := trace s @ registrations, initialised := True,
                     pluginsLoaded := False, pluginsStarted := False\<rparr>"
  unfolding Initialise_def foldl_emit by (simp add: registrations_def Let_def)

lemma StartPlugins_evalQueue: "evalQueue (StartPlugins s) = evalQueue s"
  using arg_cong [OF StartPlugins_queue [where s = s and n = "next_promise s" and q = "evalQueue s"], of evalQueue] by simp

lemma AutoReloadPlugins_evalQueue: "evalQueue (AutoReloadPlugins env s) = evalQueue s"
  using arg_cong [OF AutoReloadPlugins_queue [where s = s and n = "next_promise s" and q = "evalQueue s"], of evalQueue] by simp

lemma Update_queue:
  "trace (Update env (s\<lparr>next_promise := n, evalQueue := evalQueue s @ q\<rparr>)) =
     trace (Update env s) @ REPL_events env q"
proof -
  have init: "Initialise (s\<lparr>next_promise := n, evalQueue := evalQueue s @ q\<rparr>) =
                (Initialise s)\<lparr>next_promise := n, evalQueue := evalQueue s @ q\<rparr>"
    by (rule Initialise_queue)
  show ?thesis
    unfolding Update_def ProcessREPL_eq Let_def
    by (simp add: init StartPlugins_queue AutoReloadPlugins_queue StartPlugins_evalQueue
          AutoReloadPlugins_evalQueue REPL_events_append)
      (simp add: Initialise_eq)
qed

lemma Update_evalQueue: "evalQueue (Update env s) = []"
  by (simp add: Update_def ProcessREPL_eq Let_def)

text \<open>
  Claim C5. \<open>ProcessREPL\<close> appends to the trace the events of the queued items in queue
  order, each item's console line (if any) before its completion signal. For two snippets
  \<open>S1\<close> then \<open>S2\<close> enqueued by \<open>Eval\<close> before one \<open>Update\<close>: compared with the same
  \<open>Update\<close> without them, the trace is extended by exactly the output of \<open>S1\<close>, the
  completion signal of \<open>S1\<close>, the output of \<open>S2\<close>, the completion signal of \<open>S2\<close>, in
  this order; the two signals are distinct and the queue is empty afterwards.
\<close>

theorem REPL_fifo:
  "trace (ProcessREPL env s) = trace s @ REPL_events env (evalQueue s)
   \<and> trace (Update env (snd (Eval S2 (snd (Eval S1 s))))) =
       trace (Update env s)
       @ REPL_output env S1 @ [PromiseSetValue (fst (Eval S1 s))]
       @ REPL_output env S2 @ [PromiseSetValue (fst (Eval S2 (snd (Eval S1 s))))]
   \<and> fst (Eval S1 s) \<noteq> fst (Eval S2 (snd (Eval S1 s)))
   \<and> evalQueue (Update env (snd (Eval S2 (snd (Eval S1 s))))) = []"
proof -
  have "snd (Eval S2 (snd (Eval S1 s))) =
          s\<lparr>next_promise := Suc (Suc (next_promise s)),
            evalQueue := evalQueue s @ [(next_promise s, S1), (Suc (next_promise s), S2)]\<rparr>"
    by (simp add: Eval_def Let_def)
  then have "trace (Update env (snd (Eval S2 (snd (Eval S1 s))))) =
          trace (Update env s)
          @ REPL_events env [(next_promise s, S1), (Suc (next_promise s), S2)]"
    by (simp only: Update_queue)
  then show ?thesis
    by (simp add: ProcessREPL_eq Update_evalQueue REPL_events_def Eval_def Let_def)
qed

theorem REPL_fifo_witness:
  "new_events started_engine
     (Update env_ab (snd (Eval ''1+1'' (snd (Eval ''x'' started_engine))))) =
     [ConsoleWriteLineError ''ReferenceError: identifier x undefined'', PromiseSetValue 0,
      ConsoleWriteLine ''1'', PromiseSetValue 1]"
proof -
  have idle: "trace (Update env_ab started_engine) = trace started_engine"
    by code_simp
  have out1: "REPL_output env_ab ''x'' =
                [ConsoleWriteLineError ''ReferenceError: identifier x undefined'']"
    by code_simp
  have out2: "REPL_output env_ab ''1+1'' = [ConsoleWriteLine ''1'']"
    by code_simp
  have f1: "fst (Eval ''x'' started_engine) = 0"
    by code_simp
  have f2: "fst (Eval ''1+1'' (snd (Eval ''x'' started_engine))) = 1"
    by code_simp
  show ?thesis
    using REPL_fifo [where env = env_ab and s = started_engine and ?S1.0 = "''x''" and ?S2.0 = "''1+1''"]
    by (simp add: new_events_def idle out1 out2 f1 f2)
qed

text \<open>
  Claim C6. When the evaluation of a queued snippet fails, \<open>ProcessREPL\<close> writes the error
  text as an error line for that snippet, fulfils its completion signal right after, and
  goes on with the snippets behind it: the events of the items before and after it are
  those they produce on their own. The queue is drained, and the completion signal of
  every queued item is among the new events, whether its evaluation succeeded or not.
\<close>

theorem REPL_error_isolated:
  assumes "evalQueue s = before @ (promise, cmd) # after"
    and "fst (duk_peval_string env cmd) \<noteq> 0"
  shows "trace (ProcessREPL env s) =
           trace s @ REPL_events env before
           @ [ConsoleWriteLineError (duk_safe_to_string (snd (duk_peval_string env cmd))),
              PromiseSetValue promise]
           @ REPL_events env after
       \<and> evalQueue (ProcessREPL env s) = []
       \<and> (\<forall>item \<in> set (evalQueue s).
             PromiseSetValue (fst item) \<in> set (new_events s (ProcessREPL env s)))"
proof -
  have events: "new_events s (ProcessREPL env s) = REPL_events env (evalQueue s)"
    by (rule new_events_append) (simp add: ProcessREPL_eq)
  have fulfilled: "PromiseSetValue (fst item) \<in> set (REPL_events env q)" if "item \<in> set q" for item q
    using that by (induction q) (auto simp: REPL_events_def)
  have "REPL_events env (evalQueue s) =
          REPL_events env before
          @ [ConsoleWriteLineError (duk_safe_to_string (snd (duk_peval_string env cmd))),
             PromiseSetValue promise]
          @ REPL_events env after"
    using assms by (simp add: REPL_events_def REPL_output_def)
  then have "trace (ProcessREPL env s) =
           trace s @ REPL_events env before
           @ [ConsoleWriteLineError (duk_safe_to_string (snd (duk_peval_string env cmd))),
              PromiseSetValue promise]
           @ REPL_events env after"
    by (simp add: ProcessREPL_eq)
  moreover have "evalQueue (ProcessREPL env s) = []"
    by (simp add: ProcessREPL_eq)
  moreover have "\<forall>item \<in> set (evalQueue s).
             PromiseSetValue (fst item) \<in> set (new_events s (ProcessREPL env s))"
    unfolding events using fulfilled by blast
  ultimately show ?thesis by blast
qed

theorem REPL_error_isolated_witness:
  "evalQueue queued_engine = [(0, ''1'')] @ (1, ''x'') # [(2, ''2'')]
   \<and> fst (duk_peval_string env_ab ''x'') \<noteq> 0
   \<and> new_events queued_engine (ProcessREPL env_ab queued_engine) =
       [ConsoleWriteLine ''1'', PromiseSetValue 0,
        ConsoleWriteLineError ''ReferenceError: identifier x undefined'', PromiseSetValue 1,
        ConsoleWriteLine ''1'', PromiseSetValue 2]
   \<and> evalQueue (ProcessREPL env_ab queued_engine) = []"
proof -
  have queue: "evalQueue queued_engine = [(0, ''1'')] @ (1, ''x'') # [(2, ''2'')]"
    by code_simp
  have fails: "fst (duk_peval_string env_ab ''x'') \<noteq> 0"
    by code_simp
  have before: "REPL_events env_ab [(0, ''1'')] = [ConsoleWriteLine ''1'', PromiseSetValue 0]"
    by code_simp
  have after: "REPL_events env_ab [(2, ''2'')] = [ConsoleWriteLine ''1'', PromiseSetValue 2]"
    by code_simp
  have message: "duk_safe_to_string (snd (duk_peval_string env_ab ''x'')) =
                ''ReferenceError: identifier x undefined''"
    by code_simp
  show ?thesis
    using REPL_error_isolated [OF queue fails]
    by (simp add: new_events_def queue fails before after message)
qed

subsection \<open>Update\<close>

lemma tick_elapsed: "(1000 < (w :: 32 word)) = (1000 < unat w)"
  by (simp add: word_less_nat_alt)

text \<open>
  Claim C4, as the code has it. \<open>Update\<close> initialises the engine when it is not
  initialised (which clears the plugins-loaded flag, so nothing else happens before the
  REPL). On an initialised engine whose plugins are loaded, it starts them when they are
  not started; when they are started and strictly more than 1000 ticks (unsigned 32-bit
  difference) have passed since the last check, it runs \<open>AutoReloadPlugins\<close> and sets
  the timer to the current tick; at 1000 ticks or fewer, and when plugins are not loaded,
  it does neither. Every branch ends with \<open>ProcessREPL\<close>: the queue is empty afterwards
  and the events of the queued items are the last of the trace.
\<close>

theorem Update_spec:
  "(\<not> initialised s \<longrightarrow> Update env s = ProcessREPL env (Initialise s))
   \<and> (initialised s \<and> \<not> pluginsLoaded s \<longrightarrow> Update env s = ProcessREPL env s)
   \<and> (initialised s \<and> pluginsLoaded s \<and> \<not> pluginsStarted s \<longrightarrow>
        Update env s = ProcessREPL env (StartPlugins s))
   \<and> (initialised s \<and> pluginsLoaded s \<and> pluginsStarted s
        \<and> 1000 < unat (GetTicks env - lastHotReloadCheckTick s) \<longrightarrow>
        Update env s =
          ProcessREPL env ((AutoReloadPlugins env s)\<lparr>lastHotReloadCheckTick := GetTicks env\<rparr>))
   \<and> (initialised s \<and> pluginsLoaded s \<and> pluginsStarted s
        \<and> unat (GetTicks env - lastHotReloadCheckTick s) \<le> 1000 \<longrightarrow>
        Update env s = ProcessREPL env s)
   \<and> evalQueue (Update env s) = []
   \<and> (\<exists>pre. trace (Update env s) = pre @ REPL_events env (evalQueue s))"
proof -
  have a1: "\<not> initialised s \<longrightarrow> Update env s = ProcessREPL env (Initialise s)"
    by (simp add: Update_def Let_def Initialise_eq)
  have a2: "initialised s \<and> \<not> pluginsLoaded s \<longrightarrow> Update env s = ProcessREPL env s"
    by (simp add: Update_def Let_def)
  have a3: "initialised s \<and> pluginsLoaded s \<and> \<not> pluginsStarted s \<longrightarrow>
        Update env s = ProcessREPL env (StartPlugins s)"
    by (simp add: Update_def Let_def)
  have a4: "initialised s \<and> pluginsLoaded s \<and> pluginsStarted s
        \<and> 1000 < unat (GetTicks env - lastHotReloadCheckTick s) \<longrightarrow>
        Update env s =
          ProcessREPL env ((AutoReloadPlugins env s)\<lparr>lastHotReloadCheckTick := GetTicks env\<rparr>)"
    by (simp add: Update_def Let_def tick_elapsed)
  have a5: "initialised s \<and> pluginsLoaded s \<and> pluginsStarted s
        \<and> unat (GetTicks env - lastHotReloadCheckTick s) \<le> 1000 \<longrightarrow>
        Update env s = ProcessREPL env s"
    by (simp add: Update_def Let_def tick_elapsed)
  have ex: "\<exists>pre. trace (Update env s) = pre @ REPL_events env (evalQueue s)"
    unfolding Update_def ProcessREPL_eq Let_def
    by (simp add: StartPlugins_evalQueue AutoReloadPlugins_evalQueue Initialise_eq)
  show ?thesis
    by (intro conjI a1 a2 a3 a4 a5 Update_evalQueue ex)
qed

text \<open>
  The claim as stated asks for the reload at 1000 elapsed ticks. With plugins loaded and
  started, a pending change of \<open>a.js\<close> and exactly 1000 ticks since the last check,
  \<open>Update\<close> leaves the change pending, keeps the timer and appends no event.
\<close>

theorem Update_threshold_counterexample:
  "initialised pending_engine \<and> pluginsLoaded pending_engine \<and> pluginsStarted pending_engine
   \<and> unat (GetTicks env_ab - lastHotReloadCheckTick pending_engine) = 1000
   \<and> list_of_dlist (changedPluginFiles pending_engine) = [''a.js'']
   \<and> list_of_dlist (changedPluginFiles (Update env_ab pending_engine)) = [''a.js'']
   \<and> lastHotReloadCheckTick (Update env_ab pending_engine) = 0
   \<and> new_events pending_engine (Update env_ab pending_engine) = []"
  by code_simp

theorem Update_spec_witness:
  "\<not> initialised ScriptEngine_ctor
   \<and> Update env_ab ScriptEngine_ctor = ProcessREPL env_ab (Initialise ScriptEngine_ctor)
   \<and> initialised (Initialise ScriptEngine_ctor) \<and> \<not> pluginsLoaded (Initialise ScriptEngine_ctor)
   \<and> Update env_ab (Initialise ScriptEngine_ctor) = ProcessREPL env_ab (Initialise ScriptEngine_ctor)
   \<and> initialised loaded_engine \<and> pluginsLoaded loaded_engine \<and> \<not> pluginsStarted loaded_engine
   \<and> Update env_ab loaded_engine = ProcessREPL env_ab (StartPlugins loaded_engine)
   \<and> initialised pending_engine \<and> pluginsLoaded pending_engine \<and> pluginsStarted pending_engine
   \<and> unat (GetTicks env_changed - lastHotReloadCheckTick pending_engine) = 5000
   \<and> Update env_changed pending_engine =
       ProcessREPL env_changed
         ((AutoReloadPlugins env_changed pending_engine)\<lparr>lastHotReloadCheckTick := GetTicks env_changed\<rparr>)
   \<and> unat (GetTicks env_ab - lastHotReloadCheckTick pending_engine) = 1000
   \<and> Update env_ab pending_engine = ProcessREPL env_ab pending_engine
   \<and> evalQueue (Update env_ab queued_engine) = []"
proof -
  have fresh: "\<not> initialised ScriptEngine_ctor"
    by code_simp
  have init: "initialised (Initialise ScriptEngine_ctor)" "\<not> pluginsLoaded (Initialise ScriptEngine_ctor)"
    by code_simp+
  have loaded: "initialised loaded_engine" "pluginsLoaded loaded_engine" "\<not> pluginsStarted loaded_engine"
    by code_simp+
  have pending: "initialised pending_engine" "pluginsLoaded pending_engine" "pluginsStarted pending_engine"
    by code_simp+
  have late: "unat (GetTicks env_changed - lastHotReloadCheckTick pending_engine) = 5000"
    by code_simp
  have early: "unat (GetTicks env_ab - lastHotReloadCheckTick pending_engine) = 1000"
    by code_simp
  show ?thesis
    using Update_spec [of ScriptEngine_ctor env_ab] Update_spec [of "Initialise ScriptEngine_ctor" env_ab]
      Update_spec [of loaded_engine env_ab] Update_spec [of pending_engine env_changed]
      Update_spec [of pending_engine env_ab] Update_spec [of queued_engine env_ab]
      fresh init loaded pending late early
    by simp
qed

subsection \<open>Effects of the lifecycle operations\<close>

text \<open>What the lifecycle operations append and change.\<close>

lemma StopPlugin_trace:
  "trace (StopPlugin p s) =
     trace s @ (if HasStarted (heap s p)
                then HookUnsubscribeAll p
                     # map (\<lambda>callback. PluginStoppedCallback callback p) (pluginStoppedSubscriptions s)
                     @ PluginCall EntryStop p (Some p)
                     # (case stop_throws (loaded (heap s p)) of
                          Some what \<Rightarrow> [ConsoleWriteLineError what] | None \<Rightarrow> [])
                else [])"
  unfolding StopPlugin_def UnsubscribeAll_def foldl_emit Plugin_Stop_def WriteLineError_def
  by (simp add: emit_def Let_def split: option.splits)

lemma StopPlugin_heap:
  "heap (StopPlugin p s) q =
     (if q = p \<and> HasStarted (heap s p) \<and> stop_throws (loaded (heap s p)) = None
      then (heap s p)\<lparr>HasStarted := False\<rparr> else heap s q)"
  unfolding StopPlugin_def UnsubscribeAll_def foldl_emit Plugin_Stop_def WriteLineError_def
  by (simp add: emit_def Let_def split: option.splits)

lemma StopPlugin_fields:
  "plugins (StopPlugin p s) = plugins s"
  "execInfo (StopPlugin p s) = execInfo s"
  "next_plugin (StopPlugin p s) = next_plugin s"
  "changedPluginFiles (StopPlugin p s) = changedPluginFiles s"
  unfolding StopPlugin_def UnsubscribeAll_def foldl_emit Plugin_Stop_def WriteLineError_def
  by (simp_all add: emit_def Let_def split: option.splits)

lemma AutoReloadPlugins_try_trace:
  "trace (AutoReloadPlugins_try env p s) =
     trace (StopPlugin p s) @ PluginCall EntryLoad p (Some p)
     # (case registerPlugin (files env (GetPath (heap s p))) of
          Inl what \<Rightarrow> [ConsoleWriteLineError what]
        | Inr m \<Rightarrow>
            ConsoleWriteLine (''['' @ Name m @ ''] Reloaded'')
            # PluginCall EntryStart p (Some p)
            # (case main_throws (files env (GetPath (heap s p))) of
                 Some what \<Rightarrow> [ConsoleWriteLineError what] | None \<Rightarrow> []))"
  by (simp add: AutoReloadPlugins_try_def Plugin_Load_def Plugin_Start_def LogPluginInfo_def
        WriteLine_def WriteLineError_def emit_def Let_def StopPlugin_heap
        split: option.splits sum.splits)

lemma AutoReloadPlugins_try_fields:
  "plugins (AutoReloadPlugins_try env p s) = plugins s"
  "execInfo (AutoReloadPlugins_try env p s) = execInfo s"
  "next_plugin (AutoReloadPlugins_try env p s) = next_plugin s"
  "changedPluginFiles (AutoReloadPlugins_try env p s) = changedPluginFiles s"
  by (simp_all add: AutoReloadPlugins_try_def Plugin_Load_def Plugin_Start_def LogPluginInfo_def
        WriteLine_def WriteLineError_def emit_def Let_def StopPlugin_fields
        split: option.splits sum.splits)

lemma AutoReloadPlugins_try_heap_other:
  "q \<noteq> p \<Longrightarrow> heap (AutoReloadPlugins_try env p s) q = heap s q"
  by (simp add: AutoReloadPlugins_try_def Plugin_Load_def Plugin_Start_def LogPluginInfo_def
        WriteLine_def WriteLineError_def emit_def Let_def StopPlugin_heap
        split: option.splits sum.splits)

lemma AutoReloadPlugins_try_path:
  "GetPath (heap (AutoReloadPlugins_try env p s) q) = GetPath (heap s q)"
  by (simp add: AutoReloadPlugins_try_def Plugin_Load_def Plugin_Start_def LogPluginInfo_def
        WriteLine_def WriteLineError_def emit_def Let_def StopPlugin_heap
        split: option.splits sum.splits)

lemma AutoReloadPlugins_try_metadata:
  "registerPlugin (files env (GetPath (heap s p))) = Inr m \<Longrightarrow>
     GetMetadata (heap (AutoReloadPlugins_try env p s) p) = m"
  by (simp add: AutoReloadPlugins_try_def Plugin_Load_def Plugin_Start_def LogPluginInfo_def
        WriteLine_def WriteLineError_def emit_def Let_def StopPlugin_heap
        split: option.splits sum.splits)


lemma find_if_path_member: "find_if_path path s = Some p \<Longrightarrow> p \<in> set (plugins s)"
  unfolding find_if_path_def by (metis find_Some_iff nth_mem)

lemma find_if_path_path: "find_if_path path s = Some p \<Longrightarrow> GetPath (heap s p) = path"
  unfolding find_if_path_def Path_Equals_def by (metis (mono_tags, lifting) find_Some_iff)

lemma find_if_path_cong:
  "plugins t = plugins s \<Longrightarrow> (\<And>q. GetPath (heap t q) = GetPath (heap s q)) \<Longrightarrow>
     find_if_path path t = find_if_path path s"
  by (simp add: find_if_path_def)

lemma AutoReloadPlugins_body_fields:
  "plugins (AutoReloadPlugins_body env path s) = plugins s"
  "execInfo (AutoReloadPlugins_body env path s) = execInfo s"
  "next_plugin (AutoReloadPlugins_body env path s) = next_plugin s"
  "changedPluginFiles (AutoReloadPlugins_body env path s) = changedPluginFiles s"
  "GetPath (heap (AutoReloadPlugins_body env path s) q) = GetPath (heap s q)"
  by (simp_all add: AutoReloadPlugins_body_def AutoReloadPlugins_try_fields
        AutoReloadPlugins_try_path split: option.splits)

lemma AutoReloadPlugins_body_find:
  "find_if_path path' (AutoReloadPlugins_body env path s) = find_if_path path' s"
  by (rule find_if_path_cong) (simp_all add: AutoReloadPlugins_body_fields)

lemma AutoReloadPlugins_loop_fields:
  "plugins (AutoReloadPlugins_loop env paths s) = plugins s"
  "execInfo (AutoReloadPlugins_loop env paths s) = execInfo s"
  "next_plugin (AutoReloadPlugins_loop env paths s) = next_plugin s"
  "GetPath (heap (AutoReloadPlugins_loop env paths s) q) = GetPath (heap s q)"
  by (induction paths arbitrary: s) (simp_all add: AutoReloadPlugins_body_fields)

lemma AutoReloadPlugins_plugins: "plugins (AutoReloadPlugins env s) = plugins s"
  by (simp add: AutoReloadPlugins_def AutoReloadPlugins_loop_fields)

lemma AutoReloadPlugins_changed: "changedPluginFiles (AutoReloadPlugins env s) = Dlist.empty"
  by (cases "list_of_dlist (changedPluginFiles s)")
     (simp_all add: AutoReloadPlugins_def Dlist.length_def dlist_eq_iff)

text \<open>Only \<open>Initialise\<close> registers.\<close>

lemma StopPlugin_registered:
  "filter is_registration (trace (StopPlugin p s)) = filter is_registration (trace s)"
  by (auto simp: StopPlugin_trace filter_empty_conv split: option.splits)

lemma StartPlugins_body_registered:
  "filter is_registration (trace (StartPlugins_body p s)) = filter is_registration (trace s)"
  by (simp add: StartPlugins_body_trace split: option.splits)

lemma StartPlugins_registered:
  "filter is_registration (trace (StartPlugins s)) = filter is_registration (trace s)"
proof -
  have "filter is_registration (trace (StartPlugins_loop ps t)) = filter is_registration (trace t)"
    for ps t
    by (induction ps arbitrary: t) (simp_all add: StartPlugins_body_registered)
  then show ?thesis by (simp add: StartPlugins_def)
qed

lemma AutoReloadPlugins_body_registered:
  "filter is_registration (trace (AutoReloadPlugins_body env path s)) = filter is_registration (trace s)"
  by (simp add: AutoReloadPlugins_body_def AutoReloadPlugins_try_trace StopPlugin_registered
        split: option.splits sum.splits)

lemma AutoReloadPlugins_registered:
  "filter is_registration (trace (AutoReloadPlugins env s)) = filter is_registration (trace s)"
proof -
  have "filter is_registration (trace (AutoReloadPlugins_loop env ps t)) = filter is_registration (trace t)"
    for ps t
    by (induction ps arbitrary: t) (simp_all add: AutoReloadPlugins_body_registered)
  then show ?thesis by (simp add: AutoReloadPlugins_def)
qed

lemma ProcessREPL_registered:
  "filter is_registration (trace (ProcessREPL env s)) = filter is_registration (trace s)"
proof -
  have "filter is_registration (REPL_events env q) = []" for q
    by (induction q) (simp_all add: REPL_events_def REPL_output_def)
  then show ?thesis by (simp add: ProcessREPL_eq)
qed

lemma LoadPlugin_trace:
  "trace (LoadPlugin env path s) =
     trace s @ PluginCall EntryLoad (next_plugin s) (Some (next_plugin s))
     # (case registerPlugin (files env path) of
          Inl what \<Rightarrow> [ConsoleWriteLineError what]
        | Inr m \<Rightarrow>
            (if MinApiVersion m \<le> OPENRCT2_PLUGIN_API_VERSION
             then [ConsoleWriteLine (''['' @ Name m @ ''] Loaded'')]
             else [ConsoleWriteLine (''['' @ Name m @ ''] Requires newer API version: v''
                                      @ to_string (MinApiVersion m))]))"
  by (simp add: LoadPlugin_def Plugin_Load_def Plugin_ctor_def LogPluginInfo_def
        WriteLine_def WriteLineError_def emit_def Let_def split: option.splits sum.splits)

lemma LoadPlugin_plugins:
  "plugins (LoadPlugin env path s) =
     plugins s @ (case registerPlugin (files env path) of
                    Inl what \<Rightarrow> []
                  | Inr m \<Rightarrow> if MinApiVersion m \<le> OPENRCT2_PLUGIN_API_VERSION
                             then [next_plugin s] else [])"
  by (simp add: LoadPlugin_def Plugin_Load_def Plugin_ctor_def LogPluginInfo_def
        WriteLine_def WriteLineError_def emit_def Let_def split: option.splits sum.splits)

lemma LoadPlugin_fields:
  "next_plugin (LoadPlugin env path s) = Suc (next_plugin s)"
  "execInfo (LoadPlugin env path s) = execInfo s"
  "q \<noteq> next_plugin s \<Longrightarrow> heap (LoadPlugin env path s) q = heap s q"
  "\<not> HasStarted (heap (LoadPlugin env path s) (next_plugin s))"
  by (simp_all add: LoadPlugin_def Plugin_Load_def Plugin_ctor_def LogPluginInfo_def
        WriteLine_def WriteLineError_def emit_def Let_def split: option.splits sum.splits)

lemma LoadPlugin_registered:
  "filter is_registration (trace (LoadPlugin env path s)) = filter is_registration (trace s)"
  by (simp add: LoadPlugin_trace split: sum.splits)

lemma LoadPlugins_loop_registered:
  "filter is_registration (trace (LoadPlugins_loop env paths s)) = filter is_registration (trace s)"
  by (induction paths arbitrary: s) (simp_all add: LoadPlugin_registered)

lemma SetupHotReloading_registered:
  "filter is_registration (trace (SetupHotReloading env s)) = filter is_registration (trace s)"
  by (simp add: SetupHotReloading_def emit_def Let_def split: option.splits)

lemma registrations_registered: "filter is_registration registrations = registrations"
  by (simp add: registrations_def)

subsection \<open>Initialise\<close>

text \<open>
  Claim C7, as the code has it. \<open>Initialise\<close> has no guard of its own: every call appends
  all registrations, sets the initialised flag and clears the plugins-loaded and
  plugins-started flags, so a second call in succession registers everything a second
  time and leaves the three flags as the first call left them. The guard is at the call
  sites: on an initialised engine \<open>LoadPlugins\<close> and \<open>Update\<close> register nothing, and on
  an engine that is not initialised they register everything exactly once.
\<close>

theorem Initialise_spec:
  "trace (Initialise s) = trace s @ registrations
   \<and> initialised (Initialise s) \<and> \<not> pluginsLoaded (Initialise s) \<and> \<not> pluginsStarted (Initialise s)
   \<and> trace (Initialise (Initialise s)) = trace s @ registrations @ registrations
   \<and> initialised (Initialise (Initialise s)) = initialised (Initialise s)
   \<and> pluginsLoaded (Initialise (Initialise s)) = pluginsLoaded (Initialise s)
   \<and> pluginsStarted (Initialise (Initialise s)) = pluginsStarted (Initialise s)
   \<and> (initialised s \<longrightarrow>
        filter is_registration (trace (LoadPlugins env s)) = filter is_registration (trace s)
        \<and> filter is_registration (trace (Update env s)) = filter is_registration (trace s))
   \<and> (\<not> initialised s \<longrightarrow>
        filter is_registration (trace (LoadPlugins env s)) =
          filter is_registration (trace s) @ registrations
        \<and> filter is_registration (trace (Update env s)) =
          filter is_registration (trace s) @ registrations)"
proof -
  have init: "filter is_registration (trace (Initialise s)) =
                filter is_registration (trace s) @ registrations"
    by (simp add: Initialise_eq registrations_registered)
  have load: "filter is_registration (trace (LoadPlugins env s)) =
                filter is_registration (trace (if initialised s then s else Initialise s))"
    by (simp add: LoadPlugins_def Let_def LoadPlugins_loop_registered SetupHotReloading_registered)
  have update: "filter is_registration (trace (Update env s)) =
                filter is_registration (trace (if initialised s then s else Initialise s))"
    by (simp add: Update_def Let_def ProcessREPL_registered StartPlugins_registered
          AutoReloadPlugins_registered)
  show ?thesis
    using init load update by (simp add: Initialise_eq)
qed

text \<open>
  The claim as stated says that a call on an initialised engine skips the work. On the
  engine with plugins loaded, \<open>Initialise\<close> clears the plugins-loaded flag and appends all
  registrations again; two calls in succession register the global \<open>console\<close> twice.
\<close>

theorem Initialise_unguarded_counterexample:
  "initialised loaded_engine \<and> pluginsLoaded loaded_engine
   \<and> \<not> pluginsLoaded (Initialise loaded_engine)
   \<and> new_events loaded_engine (Initialise loaded_engine) = registrations
   \<and> count_list (trace (Initialise ScriptEngine_ctor)) (RegisterGlobal ''console'') = 1
   \<and> count_list (trace (Initialise (Initialise ScriptEngine_ctor))) (RegisterGlobal ''console'') = 2"
  by code_simp

theorem Initialise_spec_witness:
  "initialised loaded_engine
   \<and> filter is_registration (trace (LoadPlugins env_ab loaded_engine)) = registrations
   \<and> filter is_registration (trace (Update env_ab loaded_engine)) = registrations
   \<and> \<not> initialised ScriptEngine_ctor
   \<and> filter is_registration (trace (LoadPlugins env_ab ScriptEngine_ctor)) = registrations
   \<and> filter is_registration (trace (Update env_ab ScriptEngine_ctor)) = registrations
   \<and> trace (Initialise (Initialise ScriptEngine_ctor)) = registrations @ registrations"
proof -
  have started: "initialised loaded_engine"
    by code_simp
  have before: "filter is_registration (trace loaded_engine) = registrations"
    by code_simp
  have fresh: "\<not> initialised ScriptEngine_ctor" "trace ScriptEngine_ctor = []"
    by code_simp+
  show ?thesis
    using Initialise_spec [of loaded_engine env_ab] Initialise_spec [of ScriptEngine_ctor env_ab]
      started before fresh
    by simp
qed

subsection \<open>LoadPlugins without a plugin directory\<close>

lemma REPL_events_no_plugin_call: "filter is_plugin_call (REPL_events env q) = []"
  by (induction q) (simp_all add: REPL_events_def REPL_output_def)

lemma registrations_no_plugin_call: "filter is_plugin_call registrations = []"
  by (simp add: registrations_def)

lemma registrations_no_output: "filter is_output registrations = []"
  by (simp add: registrations_def)

lemma LoadPlugins_no_directory:
  "\<not> DirectoryExists env \<Longrightarrow>
     LoadPlugins env s = (if initialised s then s else Initialise s)\<lparr>pluginsLoaded := True\<rparr>"
  by (simp add: LoadPlugins_def Let_def)

lemma StartPlugins_empty: "plugins s = [] \<Longrightarrow> StartPlugins s = s\<lparr>pluginsStarted := True\<rparr>"
  by (simp add: StartPlugins_def)

text \<open>
  Claim C10. When the plugin directory does not exist, \<open>LoadPlugins\<close> still sets the
  plugins-loaded flag; it leaves the registry as it was and writes nothing to the console
  or to standard output. On an engine with an empty registry whose plugins were not
  started, the next \<open>Update\<close> therefore takes the \<open>StartPlugins\<close> branch: no plugin
  code is entered, the plugins-started flag is set and the registry is still empty. From
  then on an \<open>Update\<close> that comes more than 1000 ticks after the last check runs
  \<open>AutoReloadPlugins\<close> and resets the timer.
\<close>

theorem LoadPlugins_missing_directory:
  assumes "\<not> DirectoryExists env"
  shows "pluginsLoaded (LoadPlugins env s)
       \<and> plugins (LoadPlugins env s) = plugins s
       \<and> filter is_output (trace (LoadPlugins env s)) = filter is_output (trace s)
       \<and> (plugins s = [] \<and> (\<not> initialised s \<or> \<not> pluginsStarted s) \<longrightarrow>
            Update env1 (LoadPlugins env s) = ProcessREPL env1 (StartPlugins (LoadPlugins env s))
            \<and> pluginsStarted (Update env1 (LoadPlugins env s))
            \<and> plugins (Update env1 (LoadPlugins env s)) = []
            \<and> filter is_plugin_call (trace (Update env1 (LoadPlugins env s))) =
                filter is_plugin_call (trace s)
            \<and> (1000 < unat (GetTicks env2 - lastHotReloadCheckTick (Update env1 (LoadPlugins env s))) \<longrightarrow>
                 Update env2 (Update env1 (LoadPlugins env s)) =
                   ProcessREPL env2
                     ((AutoReloadPlugins env2 (Update env1 (LoadPlugins env s)))
                        \<lparr>lastHotReloadCheckTick := GetTicks env2\<rparr>)))"
proof -
  let ?L = "LoadPlugins env s"
  have L: "?L = (if initialised s then s else Initialise s)\<lparr>pluginsLoaded := True\<rparr>"
    using assms by (rule LoadPlugins_no_directory)
  have basic: "pluginsLoaded ?L" "plugins ?L = plugins s" "initialised ?L"
    "filter is_output (trace ?L) = filter is_output (trace s)"
    unfolding L by (simp_all add: Initialise_eq registrations_no_output)
  have next_update: "Update env1 ?L = ProcessREPL env1 (StartPlugins ?L)
            \<and> pluginsStarted (Update env1 ?L)
            \<and> plugins (Update env1 ?L) = []
            \<and> filter is_plugin_call (trace (Update env1 ?L)) = filter is_plugin_call (trace s)
            \<and> (1000 < unat (GetTicks env2 - lastHotReloadCheckTick (Update env1 ?L)) \<longrightarrow>
                 Update env2 (Update env1 ?L) =
                   ProcessREPL env2
                     ((AutoReloadPlugins env2 (Update env1 ?L))\<lparr>lastHotReloadCheckTick := GetTicks env2\<rparr>))"
    if empty: "plugins s = []" and fresh: "\<not> initialised s \<or> \<not> pluginsStarted s"
  proof -
    have not_started: "\<not> pluginsStarted ?L"
      unfolding L using fresh by (auto simp: Initialise_eq)
    have start: "StartPlugins ?L = ?L\<lparr>pluginsStarted := True\<rparr>"
      using empty basic(2) by (simp add: StartPlugins_empty)
    have U: "Update env1 ?L = ProcessREPL env1 (StartPlugins ?L)"
      using basic(1,3) not_started by (simp add: Update_def Let_def)
    have fields: "pluginsStarted (Update env1 ?L)" "plugins (Update env1 ?L) = []"
      "initialised (Update env1 ?L)" "pluginsLoaded (Update env1 ?L)"
      unfolding U start ProcessREPL_eq using basic empty by simp_all
    have calls: "filter is_plugin_call (trace (Update env1 ?L)) = filter is_plugin_call (trace s)"
      unfolding U start ProcessREPL_eq
      by (simp add: REPL_events_no_plugin_call) (simp add: L Initialise_eq registrations_no_plugin_call)
    have reload: "1000 < unat (GetTicks env2 - lastHotReloadCheckTick (Update env1 ?L)) \<longrightarrow>
                 Update env2 (Update env1 ?L) =
                   ProcessREPL env2
                     ((AutoReloadPlugins env2 (Update env1 ?L))\<lparr>lastHotReloadCheckTick := GetTicks env2\<rparr>)"
      using fields by (simp add: Update_def [of env2] Let_def tick_elapsed)
    show ?thesis
      using U fields calls reload by blast
  qed
  show ?thesis
    using basic next_update by blast
qed

theorem LoadPlugins_missing_directory_witness:
  "\<not> DirectoryExists env_no_directory
   \<and> plugins ScriptEngine_ctor = [] \<and> \<not> initialised ScriptEngine_ctor
   \<and> pluginsLoaded (LoadPlugins env_no_directory ScriptEngine_ctor)
   \<and> plugins (LoadPlugins env_no_directory ScriptEngine_ctor) = []
   \<and> filter is_output (trace (LoadPlugins env_no_directory ScriptEngine_ctor)) =
       filter is_output (trace ScriptEngine_ctor)
   \<and> pluginsStarted (Update env_ab (LoadPlugins env_no_directory ScriptEngine_ctor))
   \<and> plugins (Update env_ab (LoadPlugins env_no_directory ScriptEngine_ctor)) = []
   \<and> unat (GetTicks env_changed
            - lastHotReloadCheckTick (Update env_ab (LoadPlugins env_no_directory ScriptEngine_ctor))) = 5000
   \<and> Update env_changed (Update env_ab (LoadPlugins env_no_directory ScriptEngine_ctor)) =
       ProcessREPL env_changed
         ((AutoReloadPlugins env_changed (Update env_ab (LoadPlugins env_no_directory ScriptEngine_ctor)))
            \<lparr>lastHotReloadCheckTick := GetTicks env_changed\<rparr>)"
proof -
  have missing: "\<not> DirectoryExists env_no_directory"
    by code_simp
  have fresh: "plugins ScriptEngine_ctor = []" "\<not> initialised ScriptEngine_ctor"
    by code_simp+
  have late: "unat (GetTicks env_changed
            - lastHotReloadCheckTick (Update env_ab (LoadPlugins env_no_directory ScriptEngine_ctor))) = 5000"
    by code_simp
  then have elapsed: "1000 < unat (GetTicks env_changed
            - lastHotReloadCheckTick (Update env_ab (LoadPlugins env_no_directory ScriptEngine_ctor)))"
    by simp
  note th = LoadPlugins_missing_directory [OF missing, of ScriptEngine_ctor env_ab env_changed]
  have cond: "plugins ScriptEngine_ctor = [] \<and> (\<not> initialised ScriptEngine_ctor \<or> \<not> pluginsStarted ScriptEngine_ctor)"
    using fresh by blast
  have a: "pluginsLoaded (LoadPlugins env_no_directory ScriptEngine_ctor)"
    "plugins (LoadPlugins env_no_directory ScriptEngine_ctor) = plugins ScriptEngine_ctor"
    "filter is_output (trace (LoadPlugins env_no_directory ScriptEngine_ctor)) =
       filter is_output (trace ScriptEngine_ctor)"
    using th by blast+
  have b: "pluginsStarted (Update env_ab (LoadPlugins env_no_directory ScriptEngine_ctor))"
    "plugins (Update env_ab (LoadPlugins env_no_directory ScriptEngine_ctor)) = []"
    using th cond by blast+
  have c: "Update env_changed (Update env_ab (LoadPlugins env_no_directory ScriptEngine_ctor)) =
       ProcessREPL env_changed
         ((AutoReloadPlugins env_changed (Update env_ab (LoadPlugins env_no_directory ScriptEngine_ctor)))
            \<lparr>lastHotReloadCheckTick := GetTicks env_changed\<rparr>)"
    using th cond elapsed by blast
  show ?thesis
    using missing fresh late a b c by simp
qed

subsection \<open>Hot reloading\<close>

lemma count_list_distinct: "distinct xs \<Longrightarrow> x \<in> set xs \<Longrightarrow> count_list xs x = 1"
  by (induction xs) (auto simp: count_list_0_iff)

lemma OnFileChanged_twice: "OnFileChanged path (OnFileChanged path s) = OnFileChanged path s"
  by (simp add: OnFileChanged_def dlist_eq_iff)

lemma StopPlugin_no_load:
  "count_list (trace (StopPlugin r s)) (PluginCall EntryLoad p scope) =
     count_list (trace s) (PluginCall EntryLoad p scope)"
  by (auto simp: StopPlugin_trace count_list_0_iff split: option.splits)

lemma AutoReloadPlugins_try_appends: "\<exists>ev. trace (AutoReloadPlugins_try env p s) = trace s @ ev"
  by (simp add: AutoReloadPlugins_try_trace StopPlugin_trace)

lemma AutoReloadPlugins_body_appends: "\<exists>ev. trace (AutoReloadPlugins_body env path s) = trace s @ ev"
  using AutoReloadPlugins_try_appends
  by (simp add: AutoReloadPlugins_body_def split: option.splits)

lemma AutoReloadPlugins_loop_appends: "\<exists>ev. trace (AutoReloadPlugins_loop env paths s) = trace s @ ev"
proof (induction paths arbitrary: s)
  case Nil
  show ?case by simp
next
  case (Cons path paths)
  obtain ev where "trace (AutoReloadPlugins_body env path s) = trace s @ ev"
    using AutoReloadPlugins_body_appends by blast
  moreover obtain ev' where "trace (AutoReloadPlugins_loop env paths (AutoReloadPlugins_body env path s)) =
      trace (AutoReloadPlugins_body env path s) @ ev'"
    using Cons.IH by blast
  ultimately show ?case by simp
qed

lemma AutoReloadPlugins_body_loads:
  "count_list (trace (AutoReloadPlugins_body env path s)) (PluginCall EntryLoad p (Some p)) =
     count_list (trace s) (PluginCall EntryLoad p (Some p))
     + (if find_if_path path s = Some p then 1 else 0)"
  by (auto simp: AutoReloadPlugins_body_def AutoReloadPlugins_try_trace StopPlugin_no_load
        split: option.splits sum.splits)

lemma AutoReloadPlugins_loop_find:
  "find_if_path path (AutoReloadPlugins_loop env paths s) = find_if_path path s"
  by (induction paths arbitrary: s) (simp_all add: AutoReloadPlugins_body_find)

lemma AutoReloadPlugins_loop_loads:
  "count_list (trace (AutoReloadPlugins_loop env paths s)) (PluginCall EntryLoad p (Some p)) =
     count_list (trace s) (PluginCall EntryLoad p (Some p))
     + length (filter (\<lambda>path. find_if_path path s = Some p) paths)"
  by (induction paths arbitrary: s)
     (simp_all add: AutoReloadPlugins_body_loads AutoReloadPlugins_body_find)

lemma find_if_path_unique:
  assumes "find_if_path path s = Some p"
  shows "(find_if_path q s = Some p) = (q = path)"
  using assms find_if_path_path by blast

lemma count_new_events:
  "trace s' = trace s @ ev \<Longrightarrow> count_list (new_events s s') e = count_list (trace s') e - count_list (trace s) e"
  by (simp add: new_events_def)

lemma notified_pending:
  "set (list_of_dlist (changedPluginFiles (foldl (\<lambda>t q. OnFileChanged q t) s notified))) =
     set (list_of_dlist (changedPluginFiles s)) \<union> set notified"
  by (induction notified arbitrary: s) (auto simp: OnFileChanged_def)

lemma notified_find:
  "find_if_path path (foldl (\<lambda>t q. OnFileChanged q t) s notified) = find_if_path path s"
  by (induction notified arbitrary: s) (simp_all add: find_if_path_def OnFileChanged_def)

text \<open>
  Claim C8. Reporting a changed path is idempotent: a second notification for the same
  path leaves the engine as the first one left it. After any sequence of notifications
  that names a path, once or many times and with other paths in between, the path is
  pending exactly once; the next \<open>AutoReloadPlugins\<close> enters Load exactly once for the
  registered plugin with that path, and the change set is empty afterwards.
\<close>

theorem hot_reload_dedup:
  "OnFileChanged path (OnFileChanged path s) = OnFileChanged path s
   \<and> (path \<in> set notified \<longrightarrow>
        count_list (list_of_dlist (changedPluginFiles (foldl (\<lambda>t q. OnFileChanged q t) s notified)))
          path = 1
        \<and> changedPluginFiles
            (AutoReloadPlugins env (foldl (\<lambda>t q. OnFileChanged q t) s notified)) = Dlist.empty
        \<and> (\<forall>plugin. find_if_path path s = Some plugin \<longrightarrow>
              count_list
                (new_events (foldl (\<lambda>t q. OnFileChanged q t) s notified)
                   (AutoReloadPlugins env (foldl (\<lambda>t q. OnFileChanged q t) s notified)))
                (PluginCall EntryLoad plugin (Some plugin)) = 1))"
proof -
  let ?s = "foldl (\<lambda>t q. OnFileChanged q t) s notified"
  let ?paths = "list_of_dlist (changedPluginFiles ?s)"
  have once: "count_list ?paths path = 1" if "path \<in> set notified"
    using that by (simp add: count_list_distinct notified_pending)
  have loads: "count_list (new_events ?s (AutoReloadPlugins env ?s))
                 (PluginCall EntryLoad plugin (Some plugin)) = 1"
    if pending: "path \<in> set notified" and found: "find_if_path path s = Some plugin" for plugin
  proof -
    have found': "find_if_path path ?s = Some plugin"
      using found by (simp add: notified_find)
    have "filter (\<lambda>q. find_if_path q ?s = Some plugin) ?paths = filter ((=) path) ?paths"
      using find_if_path_unique [OF found'] by (intro filter_cong) auto
    then have n: "length (filter (\<lambda>q. find_if_path q ?s = Some plugin) ?paths) = 1"
      using once [OF pending] by (simp add: count_list_eq_length_filter)
    have "path \<in> set ?paths"
      using pending by (simp add: notified_pending)
    then have nonempty: "0 < Dlist.length (changedPluginFiles ?s)"
      by (cases ?paths) (simp_all add: Dlist.length_def)
    obtain ev where ev: "trace (AutoReloadPlugins env ?s) = trace ?s @ ev"
      using AutoReloadPlugins_loop_appends [of env ?paths ?s] nonempty
      by (auto simp: AutoReloadPlugins_def)
    have "count_list (trace (AutoReloadPlugins env ?s)) (PluginCall EntryLoad plugin (Some plugin)) =
            count_list (trace ?s) (PluginCall EntryLoad plugin (Some plugin)) + 1"
      using nonempty n by (simp add: AutoReloadPlugins_def AutoReloadPlugins_loop_loads)
    then show ?thesis
      using count_new_events [OF ev] by simp
  qed
  show ?thesis
    using once loads by (simp add: OnFileChanged_twice AutoReloadPlugins_changed)
qed

theorem hot_reload_dedup_witness:
  "''a.js'' \<in> set [''a.js'', ''b.js'', ''a.js'']
   \<and> find_if_path ''a.js'' started_engine = Some 1
   \<and> list_of_dlist (changedPluginFiles
         (foldl (\<lambda>t q. OnFileChanged q t) started_engine [''a.js'', ''b.js'', ''a.js''])) =
       [''b.js'', ''a.js'']
   \<and> count_list
        (new_events (foldl (\<lambda>t q. OnFileChanged q t) started_engine [''a.js'', ''b.js'', ''a.js''])
           (AutoReloadPlugins env_changed
              (foldl (\<lambda>t q. OnFileChanged q t) started_engine [''a.js'', ''b.js'', ''a.js''])))
        (PluginCall EntryLoad 1 (Some 1)) = 1
   \<and> changedPluginFiles
        (AutoReloadPlugins env_changed
           (foldl (\<lambda>t q. OnFileChanged q t) started_engine [''a.js'', ''b.js'', ''a.js''])) =
       Dlist.empty"
proof -
  have notified: "''a.js'' \<in> set [''a.js'', ''b.js'', ''a.js'']"
    by simp
  have found: "find_if_path ''a.js'' started_engine = Some 1"
    by code_simp
  have pending: "list_of_dlist (changedPluginFiles
         (foldl (\<lambda>t q. OnFileChanged q t) started_engine [''a.js'', ''b.js'', ''a.js''])) =
       [''b.js'', ''a.js'']"
    by code_simp
  show ?thesis
    using hot_reload_dedup [of "''a.js''" started_engine "[''a.js'', ''b.js'', ''a.js'']" env_changed]
      notified found pending
    by blast
qed

lemma AutoReloadPlugins_loop_append:
  "AutoReloadPlugins_loop env (xs @ ys) s = AutoReloadPlugins_loop env ys (AutoReloadPlugins_loop env xs s)"
  by (induction xs arbitrary: s) simp_all

lemma AutoReloadPlugins_body_heap_other:
  "find_if_path path s \<noteq> Some p \<Longrightarrow> heap (AutoReloadPlugins_body env path s) p = heap s p"
  by (auto simp: AutoReloadPlugins_body_def AutoReloadPlugins_try_heap_other split: option.splits)

lemma AutoReloadPlugins_loop_heap_other:
  "\<forall>path \<in> set paths. find_if_path path s \<noteq> Some p \<Longrightarrow>
     heap (AutoReloadPlugins_loop env paths s) p = heap s p"
  by (induction paths arbitrary: s)
     (simp_all add: AutoReloadPlugins_body_heap_other AutoReloadPlugins_body_find)

lemma AutoReloadPlugins_try_started:
  "registerPlugin (files env (GetPath (heap s p))) = Inr m \<Longrightarrow>
   main_throws (files env (GetPath (heap s p))) = None \<Longrightarrow>
     HasStarted (heap (AutoReloadPlugins_try env p s) p)"
  by (simp add: AutoReloadPlugins_try_def Plugin_Load_def Plugin_Start_def LogPluginInfo_def
        WriteLine_def WriteLineError_def emit_def Let_def StopPlugin_heap
        split: option.splits sum.splits)

lemma AutoReloadPlugins_loop_reloads:
  assumes "distinct paths" and "path \<in> set paths" and found: "find_if_path path s = Some p"
  shows "\<exists>pre post.
           trace (AutoReloadPlugins_loop env paths s) =
             trace s @ pre @ PluginCall EntryLoad p (Some p)
             # (case registerPlugin (files env path) of
                  Inl what \<Rightarrow> [ConsoleWriteLineError what]
                | Inr m \<Rightarrow> [ConsoleWriteLine (''['' @ Name m @ ''] Reloaded''),
                            PluginCall EntryStart p (Some p)])
             @ post"
    and "registerPlugin (files env path) = Inr m \<Longrightarrow>
           GetMetadata (heap (AutoReloadPlugins_loop env paths s) p) = m"
    and "registerPlugin (files env path) = Inr m \<Longrightarrow> main_throws (files env path) = None \<Longrightarrow>
           HasStarted (heap (AutoReloadPlugins_loop env paths s) p)"
proof -
  obtain xs ys where split: "paths = xs @ path # ys"
    using assms(2) by (meson split_list)
  then have others: "path \<notin> set xs" "path \<notin> set ys"
    using assms(1) by simp_all
  let ?t1 = "AutoReloadPlugins_loop env xs s"
  let ?t2 = "AutoReloadPlugins_try env p ?t1"
  have found1: "find_if_path path ?t1 = Some p"
    using found by (simp add: AutoReloadPlugins_loop_find)
  have path1: "GetPath (heap ?t1 p) = path"
    using found1 by (rule find_if_path_path)
  have final: "AutoReloadPlugins_loop env paths s = AutoReloadPlugins_loop env ys ?t2"
    using found1 by (simp add: split AutoReloadPlugins_loop_append AutoReloadPlugins_body_def)
  have not_found: "find_if_path q t \<noteq> Some p" if "q \<noteq> path" "find_if_path path t = Some p" for q t
    using that find_if_path_path by blast
  have found2: "find_if_path path ?t2 = Some p"
    using found1 AutoReloadPlugins_body_find [of path env path ?t1]
    by (simp add: AutoReloadPlugins_body_def)
  have rest: "heap (AutoReloadPlugins_loop env ys ?t2) p = heap ?t2 p"
    using others(2) found2 by (intro AutoReloadPlugins_loop_heap_other) (metis not_found)
  obtain ev1 where ev1: "trace ?t1 = trace s @ ev1"
    using AutoReloadPlugins_loop_appends by blast
  obtain ev2 where ev2: "trace (AutoReloadPlugins_loop env ys ?t2) = trace ?t2 @ ev2"
    using AutoReloadPlugins_loop_appends by blast
  obtain ev0 where ev0: "trace (StopPlugin p ?t1) = trace ?t1 @ ev0"
    by (simp add: StopPlugin_trace)
  show "\<exists>pre post.
           trace (AutoReloadPlugins_loop env paths s) =
             trace s @ pre @ PluginCall EntryLoad p (Some p)
             # (case registerPlugin (files env path) of
                  Inl what \<Rightarrow> [ConsoleWriteLineError what]
                | Inr m \<Rightarrow> [ConsoleWriteLine (''['' @ Name m @ ''] Reloaded''),
                            PluginCall EntryStart p (Some p)])
             @ post"
  proof (cases "registerPlugin (files env path)")
    case (Inl what)
    then have "trace (AutoReloadPlugins_loop env paths s) =
        trace s @ (ev1 @ ev0) @ PluginCall EntryLoad p (Some p) # [ConsoleWriteLineError what] @ ev2"
      by (simp add: final ev2 AutoReloadPlugins_try_trace path1 ev0 ev1)
    then show ?thesis using Inl by (metis sum.simps(5))
  next
    case (Inr m')
    then have "trace (AutoReloadPlugins_loop env paths s) =
        trace s @ (ev1 @ ev0) @ PluginCall EntryLoad p (Some p)
        # [ConsoleWriteLine (''['' @ Name m' @ ''] Reloaded''), PluginCall EntryStart p (Some p)]
        @ ((case main_throws (files env path) of
              Some what \<Rightarrow> [ConsoleWriteLineError what] | None \<Rightarrow> []) @ ev2)"
      by (simp add: final ev2 AutoReloadPlugins_try_trace path1 ev0 ev1)
    then show ?thesis using Inr by (metis sum.simps(6))
  qed
  show "GetMetadata (heap (AutoReloadPlugins_loop env paths s) p) = m"
    if "registerPlugin (files env path) = Inr m"
    using that by (simp add: final rest AutoReloadPlugins_try_metadata path1)
  show "HasStarted (heap (AutoReloadPlugins_loop env paths s) p)"
    if "registerPlugin (files env path) = Inr m" "main_throws (files env path) = None"
    using that by (simp add: final rest AutoReloadPlugins_try_started path1)
qed

lemma AutoReloadPlugins_body_calls:
  "\<exists>ev. trace (AutoReloadPlugins_body env path s) = trace s @ ev
        \<and> (\<forall>entry q scope. PluginCall entry q scope \<in> set ev \<longrightarrow> find_if_path path s = Some q)"
proof (cases "find_if_path path s")
  case None
  then show ?thesis by (simp add: AutoReloadPlugins_body_def)
next
  case (Some p)
  then show ?thesis
    by (auto simp: AutoReloadPlugins_body_def AutoReloadPlugins_try_trace StopPlugin_trace
          split: option.splits sum.splits)
qed

lemma AutoReloadPlugins_loop_calls:
  "\<exists>ev. trace (AutoReloadPlugins_loop env paths s) = trace s @ ev
        \<and> (\<forall>entry q scope. PluginCall entry q scope \<in> set ev \<longrightarrow>
              (\<exists>path \<in> set paths. find_if_path path s = Some q))"
proof (induction paths arbitrary: s)
  case Nil
  show ?case by simp
next
  case (Cons path paths)
  let ?t = "AutoReloadPlugins_body env path s"
  obtain ev0 where ev0: "trace ?t = trace s @ ev0"
    "\<forall>entry q scope. PluginCall entry q scope \<in> set ev0 \<longrightarrow> find_if_path path s = Some q"
    using AutoReloadPlugins_body_calls by blast
  obtain ev1 where ev1: "trace (AutoReloadPlugins_loop env paths ?t) = trace ?t @ ev1"
    "\<forall>entry q scope. PluginCall entry q scope \<in> set ev1 \<longrightarrow>
        (\<exists>path' \<in> set paths. find_if_path path' ?t = Some q)"
    using Cons.IH by blast
  have "trace (AutoReloadPlugins_loop env (path # paths) s) = trace s @ (ev0 @ ev1)"
    using ev0(1) ev1(1) by simp
  moreover have "\<forall>entry q scope. PluginCall entry q scope \<in> set (ev0 @ ev1) \<longrightarrow>
              (\<exists>path' \<in> set (path # paths). find_if_path path' s = Some q)"
  proof (intro allI impI)
    fix entry q scope
    assume "PluginCall entry q scope \<in> set (ev0 @ ev1)"
    then consider "PluginCall entry q scope \<in> set ev0" | "PluginCall entry q scope \<in> set ev1"
      by auto
    then show "\<exists>path' \<in> set (path # paths). find_if_path path' s = Some q"
    proof cases
      case 1
      then have "find_if_path path s = Some q"
        using ev0(2) by blast
      then show ?thesis by simp
    next
      case 2
      then obtain path' where "path' \<in> set paths" "find_if_path path' ?t = Some q"
        using ev1(2) by blast
      then show ?thesis
        by (auto simp: AutoReloadPlugins_body_find)
    qed
  qed
  ultimately show ?case by blast
qed

lemma AutoReloadPlugins_calls:
  assumes "PluginCall entry q scope \<in> set (new_events s (AutoReloadPlugins env s))"
  shows "\<exists>path \<in> set (list_of_dlist (changedPluginFiles s)). find_if_path path s = Some q"
proof (cases "0 < Dlist.length (changedPluginFiles s)")
  case False
  then show ?thesis using assms by (simp add: AutoReloadPlugins_def new_events_def)
next
  case True
  obtain ev where ev: "trace (AutoReloadPlugins_loop env (list_of_dlist (changedPluginFiles s)) s) = trace s @ ev"
    "\<forall>entry q scope. PluginCall entry q scope \<in> set ev \<longrightarrow>
        (\<exists>path \<in> set (list_of_dlist (changedPluginFiles s)). find_if_path path s = Some q)"
    using AutoReloadPlugins_loop_calls by blast
  have "new_events s (AutoReloadPlugins env s) = ev"
    using True ev(1) by (intro new_events_append) (simp add: AutoReloadPlugins_def)
  then show ?thesis using assms ev(2) by blast
qed

text \<open>
  Claim C9, as the code has it. \<open>AutoReloadPlugins\<close> never changes the registry and
  compares no version. For every pending path, the plugin reloaded is the one \<open>find_if\<close>
  yields, the first registered plugin with that path: Load is entered for it; whenever the
  file registers metadata \<open>m\<close>, whatever minimum API version \<open>m\<close> asks for, the log line
  and the entry into Start follow at once, the plugin carries \<open>m\<close> afterwards, it is still
  registered, and it is started when its main function does not throw. No code of any
  other plugin is entered: a second registered plugin with a pending path is not reloaded.
\<close>

theorem AutoReloadPlugins_no_version_check:
  "plugins (AutoReloadPlugins env s) = plugins s
   \<and> (\<forall>path plugin.
         path \<in> set (list_of_dlist (changedPluginFiles s)) \<and> find_if_path path s = Some plugin \<longrightarrow>
           plugin \<in> set (plugins (AutoReloadPlugins env s))
           \<and> PluginCall EntryLoad plugin (Some plugin) \<in> set (new_events s (AutoReloadPlugins env s))
           \<and> (\<forall>m. registerPlugin (files env path) = Inr m \<longrightarrow>
                 (\<exists>pre post.
                    new_events s (AutoReloadPlugins env s) =
                      pre @ [PluginCall EntryLoad plugin (Some plugin),
                             ConsoleWriteLine (''['' @ Name m @ ''] Reloaded''),
                             PluginCall EntryStart plugin (Some plugin)] @ post)
                 \<and> GetMetadata (heap (AutoReloadPlugins env s) plugin) = m
                 \<and> (main_throws (files env path) = None \<longrightarrow>
                      HasStarted (heap (AutoReloadPlugins env s) plugin))))
   \<and> (\<forall>entry other scope.
         PluginCall entry other scope \<in> set (new_events s (AutoReloadPlugins env s)) \<longrightarrow>
           (\<exists>path \<in> set (list_of_dlist (changedPluginFiles s)). find_if_path path s = Some other))"
proof -
  let ?paths = "list_of_dlist (changedPluginFiles s)"
  let ?s' = "AutoReloadPlugins env s"
  have main: "plugin \<in> set (plugins ?s')
           \<and> PluginCall EntryLoad plugin (Some plugin) \<in> set (new_events s ?s')
           \<and> (\<forall>m. registerPlugin (files env path) = Inr m \<longrightarrow>
                 (\<exists>pre post.
                    new_events s ?s' =
                      pre @ [PluginCall EntryLoad plugin (Some plugin),
                             ConsoleWriteLine (''['' @ Name m @ ''] Reloaded''),
                             PluginCall EntryStart plugin (Some plugin)] @ post)
                 \<and> GetMetadata (heap ?s' plugin) = m
                 \<and> (main_throws (files env path) = None \<longrightarrow> HasStarted (heap ?s' plugin)))"
    if pending: "path \<in> set ?paths" and found: "find_if_path path s = Some plugin" for path plugin
  proof -
    have nonempty: "0 < Dlist.length (changedPluginFiles s)"
      using pending by (cases ?paths) (simp_all add: Dlist.length_def)
    have heap_eq: "heap ?s' = heap (AutoReloadPlugins_loop env ?paths s)"
      and trace_eq: "trace ?s' = trace (AutoReloadPlugins_loop env ?paths s)"
      using nonempty by (simp_all add: AutoReloadPlugins_def)
    note loop = AutoReloadPlugins_loop_reloads [OF distinct_list_of_dlist pending found, of env]
    obtain pre post where tr: "trace ?s' =
             trace s @ pre @ PluginCall EntryLoad plugin (Some plugin)
             # (case registerPlugin (files env path) of
                  Inl what \<Rightarrow> [ConsoleWriteLineError what]
                | Inr m \<Rightarrow> [ConsoleWriteLine (''['' @ Name m @ ''] Reloaded''),
                            PluginCall EntryStart plugin (Some plugin)])
             @ post"
      using loop(1) unfolding trace_eq by blast
    have ev: "new_events s ?s' =
             pre @ PluginCall EntryLoad plugin (Some plugin)
             # (case registerPlugin (files env path) of
                  Inl what \<Rightarrow> [ConsoleWriteLineError what]
                | Inr m \<Rightarrow> [ConsoleWriteLine (''['' @ Name m @ ''] Reloaded''),
                            PluginCall EntryStart plugin (Some plugin)])
             @ post"
      by (rule new_events_append) (simp add: tr)
    have registered: "plugin \<in> set (plugins ?s')"
      using found by (simp add: AutoReloadPlugins_plugins find_if_path_member)
    have called: "PluginCall EntryLoad plugin (Some plugin) \<in> set (new_events s ?s')"
      by (simp add: ev)
    have sequence: "\<exists>pre post.
                    new_events s ?s' =
                      pre @ [PluginCall EntryLoad plugin (Some plugin),
                             ConsoleWriteLine (''['' @ Name m @ ''] Reloaded''),
                             PluginCall EntryStart plugin (Some plugin)] @ post"
      if "registerPlugin (files env path) = Inr m" for m
      using ev that by auto
    show ?thesis
      using registered called sequence loop(2,3) by (simp add: heap_eq)
  qed
  have registry: "plugins ?s' = plugins s"
    by (rule AutoReloadPlugins_plugins)
  have only_found: "\<forall>entry other scope.
         PluginCall entry other scope \<in> set (new_events s ?s') \<longrightarrow>
           (\<exists>path \<in> set ?paths. find_if_path path s = Some other)"
    using AutoReloadPlugins_calls by blast
  show ?thesis
    using registry main only_found by blast
qed


text \<open>
  The claim as stated speaks of every registered plugin whose path is in the change set.
  After \<open>LoadPlugins\<close> was called twice, \<open>a.js\<close> is registered as the objects 1 and 4;
  with \<open>a.js\<close> pending, only object 1 is reloaded, and object 4 keeps its old metadata
  and gets neither Load nor Start. And when Load throws, Start does not follow.
\<close>

theorem AutoReloadPlugins_first_match_counterexample:
  "plugins twice_loaded = [0, 1, 3, 4]
   \<and> GetPath (heap twice_loaded 1) = ''a.js''
   \<and> GetPath (heap twice_loaded 4) = ''a.js''
   \<and> list_of_dlist (changedPluginFiles twice_loaded) = [''a.js'']
   \<and> registerPlugin (files env_changed ''a.js'') = Inr \<lparr>Name = ''b'', MinApiVersion = 999\<rparr>
   \<and> PluginCall EntryLoad 1 (Some 1)
       \<in> set (new_events twice_loaded (AutoReloadPlugins env_changed twice_loaded))
   \<and> PluginCall EntryLoad 4 (Some 4)
       \<notin> set (new_events twice_loaded (AutoReloadPlugins env_changed twice_loaded))
   \<and> PluginCall EntryStart 4 (Some 4)
       \<notin> set (new_events twice_loaded (AutoReloadPlugins env_changed twice_loaded))
   \<and> GetMetadata (heap (AutoReloadPlugins env_changed twice_loaded) 4) =
       \<lparr>Name = ''a'', MinApiVersion = 1\<rparr>
   \<and> find_if_path ''a.js'' pending_engine = Some 1
   \<and> registerPlugin (files env_broken ''a.js'') = Inl ''SyntaxError: parse error''
   \<and> PluginCall EntryLoad 1 (Some 1)
       \<in> set (new_events pending_engine (AutoReloadPlugins env_broken pending_engine))
   \<and> PluginCall EntryStart 1 (Some 1)
       \<notin> set (new_events pending_engine (AutoReloadPlugins env_broken pending_engine))"
  by code_simp

theorem AutoReloadPlugins_no_version_check_witness:
  "list_of_dlist (changedPluginFiles pending_engine) = [''a.js'']
   \<and> find_if_path ''a.js'' pending_engine = Some 1
   \<and> registerPlugin (files env_changed ''a.js'') = Inr \<lparr>Name = ''b'', MinApiVersion = 999\<rparr>
   \<and> OPENRCT2_PLUGIN_API_VERSION < 999
   \<and> main_throws (files env_changed ''a.js'') = None
   \<and> plugins (AutoReloadPlugins env_changed pending_engine) = [0, 1]
   \<and> GetMetadata (heap (AutoReloadPlugins env_changed pending_engine) 1) =
       \<lparr>Name = ''b'', MinApiVersion = 999\<rparr>
   \<and> HasStarted (heap (AutoReloadPlugins env_changed pending_engine) 1)
   \<and> PluginCall EntryLoad 1 (Some 1)
       \<in> set (new_events pending_engine (AutoReloadPlugins env_changed pending_engine))
   \<and> list_of_dlist (changedPluginFiles twice_loaded) = [''a.js'']
   \<and> find_if_path ''a.js'' twice_loaded = Some 1
   \<and> PluginCall EntryLoad 4 (Some 4)
       \<notin> set (new_events twice_loaded (AutoReloadPlugins env_changed twice_loaded))"
proof -
  have pending: "list_of_dlist (changedPluginFiles pending_engine) = [''a.js'']"
    by code_simp
  have found: "find_if_path ''a.js'' pending_engine = Some 1"
    by code_simp
  have overwritten: "registerPlugin (files env_changed ''a.js'') = Inr \<lparr>Name = ''b'', MinApiVersion = 999\<rparr>"
    by code_simp
  have newer: "OPENRCT2_PLUGIN_API_VERSION < 999"
    by code_simp
  have returns: "main_throws (files env_changed ''a.js'') = None"
    by code_simp
  have registry: "plugins pending_engine = [0, 1]"
    by code_simp
  have member: "''a.js'' \<in> set (list_of_dlist (changedPluginFiles pending_engine))"
    by (simp add: pending)
  note th = AutoReloadPlugins_no_version_check [of env_changed pending_engine]
  have a: "plugins (AutoReloadPlugins env_changed pending_engine) = plugins pending_engine"
    using th by blast
  have b: "PluginCall EntryLoad 1 (Some 1)
       \<in> set (new_events pending_engine (AutoReloadPlugins env_changed pending_engine))"
    using th member found by blast
  have c: "GetMetadata (heap (AutoReloadPlugins env_changed pending_engine) 1) =
       \<lparr>Name = ''b'', MinApiVersion = 999\<rparr>"
    using th member found overwritten by blast
  have d: "HasStarted (heap (AutoReloadPlugins env_changed pending_engine) 1)"
    using th member found overwritten returns by blast
  have pending2: "list_of_dlist (changedPluginFiles twice_loaded) = [''a.js'']"
    by code_simp
  have found2: "find_if_path ''a.js'' twice_loaded = Some 1"
    by code_simp
  note th2 = AutoReloadPlugins_no_version_check [of env_changed twice_loaded]
  have only: "\<exists>path \<in> set (list_of_dlist (changedPluginFiles twice_loaded)).
                 find_if_path path twice_loaded = Some 4"
    if "PluginCall EntryLoad 4 (Some 4)
          \<in> set (new_events twice_loaded (AutoReloadPlugins env_changed twice_loaded))"
    using th2 that by blast
  have e: "PluginCall EntryLoad 4 (Some 4)
       \<notin> set (new_events twice_loaded (AutoReloadPlugins env_changed twice_loaded))"
    using only by (auto simp: pending2 found2)
  show ?thesis
    using pending found overwritten newer returns registry a b c d pending2 found2 e by simp
qed

subsection \<open>The version gate of LoadPlugin\<close>

text \<open>A plugin object that is \<open>untouched\<close> stays so under every operation that does not
  allocate it.\<close>

lemma Initialise_untouched: "untouched r s \<Longrightarrow> untouched r (Initialise s)"
  by (auto simp: untouched_def Initialise_eq registrations_def)

lemma StopPlugin_untouched: "untouched r s \<Longrightarrow> untouched r (StopPlugin p s)"
proof (cases "p = r")
  case True
  assume "untouched r s"
  then show ?thesis using True by (simp add: untouched_def StopPlugin_def)
next
  case False
  assume "untouched r s"
  then show ?thesis
    using False
    unfolding StopPlugin_def UnsubscribeAll_def foldl_emit Plugin_Stop_def WriteLineError_def
    by (auto simp: untouched_def emit_def Let_def split: option.splits)
qed

lemma StartPlugins_body_untouched:
  "untouched r s \<Longrightarrow> p \<noteq> r \<Longrightarrow> untouched r (StartPlugins_body p s)"
  by (auto simp: untouched_def StartPlugins_body_def Plugin_Start_def WriteLineError_def emit_def
        Let_def split: option.splits)

lemma AutoReloadPlugins_try_untouched:
  assumes "untouched r s" and "p \<noteq> r"
  shows "untouched r (AutoReloadPlugins_try env p s)"
proof -
  have "untouched r (StopPlugin p s)"
    using assms(1) by (rule StopPlugin_untouched)
  then show ?thesis
    using assms(2)
    by (auto simp: untouched_def AutoReloadPlugins_try_def Plugin_Load_def Plugin_Start_def
          LogPluginInfo_def WriteLine_def WriteLineError_def emit_def Let_def
          split: option.splits sum.splits)
qed

lemma LoadPlugin_untouched:
  "untouched r s \<Longrightarrow> r \<noteq> next_plugin s \<Longrightarrow> untouched r (LoadPlugin env path s)"
  by (auto simp: untouched_def LoadPlugin_def Plugin_Load_def Plugin_ctor_def LogPluginInfo_def
        WriteLine_def WriteLineError_def emit_def Let_def split: option.splits sum.splits)

lemma StartPlugins_untouched:
  assumes "untouched r s"
  shows "untouched r (StartPlugins s)"
proof -
  have "untouched r t \<Longrightarrow> r \<notin> set ps \<Longrightarrow> untouched r (StartPlugins_loop ps t)" for ps t
    by (induction ps arbitrary: t) (auto simp: StartPlugins_body_untouched)
  then have "untouched r (StartPlugins_loop (plugins s) s)"
    using assms by (simp add: untouched_def)
  then show ?thesis
    by (simp add: StartPlugins_def untouched_def StartPlugins_loop_plugins)
qed

lemma StopPlugin_all_untouched:
  "untouched r s \<Longrightarrow> untouched r (foldl (\<lambda>t plugin. StopPlugin plugin t) s ps)"
  by (induction ps arbitrary: s) (simp_all add: StopPlugin_untouched)

lemma StopPlugins_untouched: "untouched r s \<Longrightarrow> untouched r (StopPlugins s)"
  using StopPlugin_all_untouched [of r s "plugins s"]
  by (simp add: StopPlugins_def untouched_def)

lemma LogPluginInfo_untouched: "untouched r s \<Longrightarrow> untouched r (LogPluginInfo p message s)"
  by (simp add: untouched_def LogPluginInfo_def WriteLine_def emit_def)

lemma UnloadPlugins_untouched:
  assumes "untouched r s"
  shows "untouched r (UnloadPlugins s)"
proof -
  have "untouched r t \<Longrightarrow> untouched r (foldl (\<lambda>t plugin. LogPluginInfo plugin ''Unloaded'' t) t ps)"
    for t ps
    by (induction ps arbitrary: t) (simp_all add: LogPluginInfo_untouched)
  then have "untouched r (foldl (\<lambda>t plugin. LogPluginInfo plugin ''Unloaded'' t) (StopPlugins s)
                            (plugins (StopPlugins s)))"
    using assms by (simp add: StopPlugins_untouched)
  then show ?thesis
    by (simp add: UnloadPlugins_def Let_def untouched_def)
qed

lemma AutoReloadPlugins_body_untouched:
  "untouched r s \<Longrightarrow> untouched r (AutoReloadPlugins_body env path s)"
proof (cases "find_if_path path s")
  case None
  assume "untouched r s"
  then show ?thesis using None by (simp add: AutoReloadPlugins_body_def)
next
  case (Some p)
  assume u: "untouched r s"
  then have "p \<noteq> r"
    using find_if_path_member [OF Some] by (auto simp: untouched_def)
  then show ?thesis
    using u Some by (simp add: AutoReloadPlugins_body_def AutoReloadPlugins_try_untouched)
qed

lemma AutoReloadPlugins_untouched:
  assumes "untouched r s"
  shows "untouched r (AutoReloadPlugins env s)"
proof -
  have "untouched r t \<Longrightarrow> untouched r (AutoReloadPlugins_loop env ps t)" for ps t
    by (induction ps arbitrary: t) (simp_all add: AutoReloadPlugins_body_untouched)
  then have "untouched r (AutoReloadPlugins_loop env (list_of_dlist (changedPluginFiles s)) s)"
    using assms by simp
  then show ?thesis
    using assms by (simp add: AutoReloadPlugins_def untouched_def)
qed

lemma ProcessREPL_untouched:
  assumes "untouched r s"
  shows "untouched r (ProcessREPL env s)"
proof -
  have "filter is_plugin_call (REPL_events env (evalQueue s)) = []"
    by (rule REPL_events_no_plugin_call)
  then have "PluginCall entry r scope \<notin> set (REPL_events env (evalQueue s))" for entry scope
    by (auto simp: filter_empty_conv)
  then show ?thesis
    using assms by (simp add: untouched_def ProcessREPL_eq)
qed

lemma Update_untouched: "untouched r s \<Longrightarrow> untouched r (Update env s)"
proof -
  assume u: "untouched r s"
  have timer: "untouched r t \<Longrightarrow> untouched r (t\<lparr>lastHotReloadCheckTick := w\<rparr>)" for t w
    by (simp add: untouched_def)
  show ?thesis
    using u
    by (simp add: Update_def Let_def ProcessREPL_untouched StartPlugins_untouched
          AutoReloadPlugins_untouched Initialise_untouched timer)
qed

text \<open>Addresses are handed out in increasing order.\<close>

lemma LoadPlugins_loop_next: "next_plugin s \<le> next_plugin (LoadPlugins_loop env paths s)"
proof (induction paths arbitrary: s)
  case Nil
  show ?case by simp
next
  case (Cons path paths)
  have "next_plugin s \<le> next_plugin (if ShouldLoadScript path then LoadPlugin env path s else s)"
    by (simp add: LoadPlugin_fields)
  also have "\<dots> \<le> next_plugin (LoadPlugins_loop env (path # paths) s)"
    using Cons.IH by simp
  finally show ?case .
qed

lemma LoadPlugins_loop_untouched:
  "untouched r s \<Longrightarrow> r < next_plugin s \<or> next_plugin (LoadPlugins_loop env paths s) \<le> r \<Longrightarrow>
     untouched r (LoadPlugins_loop env paths s)"
proof (induction paths arbitrary: s)
  case Nil
  then show ?case by simp
next
  case (Cons path paths)
  let ?t = "if ShouldLoadScript path then LoadPlugin env path s else s"
  have mono: "next_plugin ?t \<le> next_plugin (LoadPlugins_loop env paths ?t)"
    by (rule LoadPlugins_loop_next)
  have step: "next_plugin ?t = (if ShouldLoadScript path then Suc (next_plugin s) else next_plugin s)"
    by (simp add: LoadPlugin_fields)
  have "r \<noteq> next_plugin s \<or> \<not> ShouldLoadScript path"
    using Cons.prems(2) mono step by (auto split: if_splits)
  then have "untouched r ?t"
    using Cons.prems(1) by (auto simp: LoadPlugin_untouched)
  moreover have "r < next_plugin ?t \<or> next_plugin (LoadPlugins_loop env paths ?t) \<le> r"
    using Cons.prems(2) step by (auto split: if_splits)
  ultimately show ?case
    using Cons.IH [of ?t] by simp
qed

lemma SetupHotReloading_untouched: "untouched r s \<Longrightarrow> untouched r (SetupHotReloading env s)"
  by (auto simp: untouched_def SetupHotReloading_def emit_def Let_def split: option.splits)

lemma SetupHotReloading_next: "next_plugin (SetupHotReloading env s) = next_plugin s"
  by (auto simp: SetupHotReloading_def emit_def Let_def split: option.splits)

lemma Initialise_next: "next_plugin (Initialise s) = next_plugin s"
  by (simp add: Initialise_eq)

lemma LoadPlugins_next: "next_plugin s \<le> next_plugin (LoadPlugins env s)"
proof -
  let ?i = "if \<not> initialised s then Initialise s else s"
  have "next_plugin ?i = next_plugin s"
    by (simp add: Initialise_next)
  then show ?thesis
    using LoadPlugins_loop_next [of ?i env "ScanDirectory env"]
    by (simp add: LoadPlugins_def Let_def SetupHotReloading_next)
qed

lemma LoadPlugins_untouched:
  assumes "untouched r s" and "r < next_plugin s \<or> next_plugin (LoadPlugins env s) \<le> r"
  shows "untouched r (LoadPlugins env s)"
proof -
  let ?i = "if \<not> initialised s then Initialise s else s"
  have i: "untouched r ?i" "next_plugin ?i = next_plugin s"
    using assms(1) by (simp_all add: Initialise_untouched Initialise_next)
  have flag: "untouched r t \<Longrightarrow> untouched r (t\<lparr>pluginsLoaded := True\<rparr>)" for t
    by (simp add: untouched_def)
  show ?thesis
  proof (cases "DirectoryExists env")
    case False
    then show ?thesis using i(1) by (simp add: LoadPlugins_def Let_def flag)
  next
    case True
    let ?l = "LoadPlugins_loop env (ScanDirectory env) ?i"
    have "next_plugin (LoadPlugins env s) = next_plugin ?l"
      using True by (simp add: LoadPlugins_def Let_def SetupHotReloading_next)
    then have "r < next_plugin ?i \<or> next_plugin ?l \<le> r"
      using assms(2) i(2) by simp
    then have "untouched r ?l"
      using i(1) by (rule LoadPlugins_loop_untouched [rotated])
    then show ?thesis
      using True by (simp add: LoadPlugins_def Let_def flag SetupHotReloading_untouched)
  qed
qed

lemma StartPlugins_next: "next_plugin (StartPlugins s) = next_plugin s"
proof -
  have body: "next_plugin (StartPlugins_body p t) = next_plugin t" for p t
    by (simp add: StartPlugins_body_def Plugin_Start_def WriteLineError_def emit_def Let_def
          split: option.splits)
  have "next_plugin (StartPlugins_loop ps t) = next_plugin t" for ps t
    by (induction ps arbitrary: t) (simp_all add: body)
  then show ?thesis by (simp add: StartPlugins_def)
qed

lemma StopPlugins_next: "next_plugin (StopPlugins s) = next_plugin s"
proof -
  have "next_plugin (foldl (\<lambda>t plugin. StopPlugin plugin t) t ps) = next_plugin t" for ps t
    by (induction ps arbitrary: t) (simp_all add: StopPlugin_fields)
  then show ?thesis by (simp add: StopPlugins_def)
qed

lemma UnloadPlugins_next: "next_plugin (UnloadPlugins s) = next_plugin s"
proof -
  have "next_plugin (foldl (\<lambda>t plugin. LogPluginInfo plugin ''Unloaded'' t) t ps) = next_plugin t"
    for ps t
    by (induction ps arbitrary: t) (simp_all add: LogPluginInfo_def WriteLine_def emit_def)
  then show ?thesis by (simp add: UnloadPlugins_def Let_def StopPlugins_next)
qed

lemma AutoReloadPlugins_next: "next_plugin (AutoReloadPlugins env s) = next_plugin s"
  by (simp add: AutoReloadPlugins_def AutoReloadPlugins_loop_fields)

lemma Update_next: "next_plugin (Update env s) = next_plugin s"
  by (simp add: Update_def Let_def ProcessREPL_eq StartPlugins_next AutoReloadPlugins_next
        Initialise_next)

lemma Dispatch_callback_untouched:
  "untouched r s \<Longrightarrow> owner \<noteq> r \<Longrightarrow> untouched r (Dispatch_callback owner cb s)"
  by (auto simp: untouched_def Dispatch_callback_def WriteLineError_def emit_def Let_def
        split: option.splits)

lemma Dispatch_subscriber_untouched:
  "untouched r s \<Longrightarrow> untouched r (Dispatch_subscriber sub s)"
proof (cases "fst sub")
  case None
  assume "untouched r s"
  then show ?thesis using None by (simp add: Dispatch_subscriber_def)
next
  case (Some owner)
  assume u: "untouched r s"
  show ?thesis
  proof (cases "owner \<in> set (plugins s)")
    case True
    then have "owner \<noteq> r"
      using u by (auto simp: untouched_def)
    then show ?thesis
      using u Some True by (simp add: Dispatch_subscriber_def Dispatch_callback_untouched)
  next
    case False
    then show ?thesis using u Some by (simp add: Dispatch_subscriber_def)
  qed
qed

lemma Dispatch_untouched: "untouched r s \<Longrightarrow> untouched r (Dispatch ev s)"
proof -
  have "untouched r t \<Longrightarrow> untouched r (foldl (\<lambda>t sub. Dispatch_subscriber sub t) t subs)" for t subs
    by (induction subs arbitrary: t) (simp_all add: Dispatch_subscriber_untouched)
  then show "untouched r s \<Longrightarrow> untouched r (Dispatch ev s)"
    by (simp add: Dispatch_def)
qed

lemma Dispatch_next: "next_plugin (Dispatch ev s) = next_plugin s"
proof -
  have step: "next_plugin (Dispatch_subscriber sub t) = next_plugin t" for sub t
    by (simp add: Dispatch_subscriber_def Dispatch_callback_def WriteLineError_def emit_def Let_def
          split: option.splits)
  have "next_plugin (foldl (\<lambda>t sub. Dispatch_subscriber sub t) t subs) = next_plugin t" for t subs
    by (induction subs arbitrary: t) (simp_all add: step)
  then show ?thesis by (simp add: Dispatch_def)
qed

lemma perform_next: "next_plugin s \<le> next_plugin (perform env op s)"
  by (cases op)
     (simp_all add: Initialise_next LoadPlugins_next LoadPlugin_fields StopPlugin_fields
        AutoReloadPlugins_next UnloadPlugins_next StartPlugins_next StopPlugins_next Update_next
        Dispatch_next Eval_def Let_def OnFileChanged_def SubscribeToPluginStoppedEvent_def)

lemma perform_untouched:
  assumes "untouched r s" and "r < next_plugin s \<or> next_plugin (perform env op s) \<le> r"
  shows "untouched r (perform env op s)"
proof (cases op)
  case OpLoadPlugins
  then show ?thesis using assms by (simp add: LoadPlugins_untouched)
next
  case (OpLoadPlugin path)
  then have "r \<noteq> next_plugin s"
    using assms(2) by (auto simp: LoadPlugin_fields)
  then show ?thesis using assms(1) OpLoadPlugin by (simp add: LoadPlugin_untouched)
next
  case (OpEval cmd)
  then show ?thesis using assms(1) by (simp add: untouched_def Eval_def Let_def)
next
  case (OpFileChanged path)
  then show ?thesis using assms(1) by (simp add: untouched_def OnFileChanged_def)
next
  case (OpSubscribeToPluginStoppedEvent callback)
  then show ?thesis using assms(1) by (simp add: untouched_def SubscribeToPluginStoppedEvent_def)
qed (use assms(1) in \<open>simp_all add: Initialise_untouched StopPlugin_untouched
      AutoReloadPlugins_untouched UnloadPlugins_untouched StartPlugins_untouched
      StopPlugins_untouched Update_untouched Dispatch_untouched\<close>)

lemma run_next: "next_plugin s \<le> next_plugin (run ops s)"
proof (induction ops arbitrary: s)
  case Nil
  show ?case by simp
next
  case (Cons step ops)
  obtain env op where step: "step = (env, op)"
    by (cases step)
  have "next_plugin s \<le> next_plugin (perform env op s)"
    by (rule perform_next)
  also have "\<dots> \<le> next_plugin (run ops (perform env op s))"
    by (rule Cons.IH)
  finally show ?case by (simp add: step)
qed

lemma run_untouched:
  "untouched r s \<Longrightarrow> r < next_plugin s \<or> next_plugin (run ops s) \<le> r \<Longrightarrow>
     untouched r (run ops s)"
proof (induction ops arbitrary: s)
  case Nil
  then show ?case by simp
next
  case (Cons step ops)
  obtain env op where step: "step = (env, op)"
    by (cases step)
  let ?t = "perform env op s"
  have "next_plugin s \<le> next_plugin ?t" "next_plugin ?t \<le> next_plugin (run ops ?t)"
    by (rule perform_next, rule run_next)
  then have cond: "r < next_plugin s \<or> next_plugin ?t \<le> r" "r < next_plugin ?t \<or> next_plugin (run ops ?t) \<le> r"
    using Cons.prems(2) by (auto simp: step)
  have "untouched r ?t"
    using Cons.prems(1) cond(1) by (rule perform_untouched)
  then show ?case
    using Cons.IH [of ?t] cond(2) by (simp add: step)
qed

lemma ctor_untouched: "untouched r ScriptEngine_ctor"
  by (simp add: untouched_def ScriptEngine_ctor_def Plugin_ctor_def subscriptions_of_def)

lemma reachable_fresh: "untouched (next_plugin (run ops ScriptEngine_ctor)) (run ops ScriptEngine_ctor)"
  by (rule run_untouched) (simp_all add: ctor_untouched)

lemma LoadPlugin_rejected_untouched:
  assumes "untouched (next_plugin s) s"
    and "registerPlugin (files env path) = Inr m"
    and "OPENRCT2_PLUGIN_API_VERSION < MinApiVersion m"
  shows "untouched (next_plugin s) (LoadPlugin env path s)"
  using assms
  by (auto simp: untouched_def LoadPlugin_def Plugin_Load_def Plugin_ctor_def LogPluginInfo_def
        WriteLine_def WriteLineError_def emit_def Let_def split: option.splits sum.splits)

text \<open>
  Claim C1. In every state the engine can reach, \<open>LoadPlugin\<close> appends the new plugin
  object to the registry if and only if its Load registers metadata whose minimum API
  version is at most \<open>OPENRCT2_PLUGIN_API_VERSION\<close>. When the version is greater, then
  after \<open>LoadPlugin\<close> and after any further sequence of operations, events raised by the
  game included, the plugin object is not in the registry (its lifecycle state is
  \<open>Unloaded\<close>), and neither its Start, nor its Stop, nor any of its callbacks has ever been
  entered. The subscriptions its top-level code made during Load stay in the hook engine,
  since the rejecting branch removes nothing; no event reaches them because the hook
  engine delivers only to plugins the registry holds.
\<close>

theorem LoadPlugin_version_gate:
  assumes "s = run before ScriptEngine_ctor" and "r = next_plugin s"
  shows "(r \<in> set (plugins (LoadPlugin env path s)) \<longleftrightarrow>
           (\<exists>m. registerPlugin (files env path) = Inr m
                \<and> MinApiVersion m \<le> OPENRCT2_PLUGIN_API_VERSION))
       \<and> (\<forall>m. registerPlugin (files env path) = Inr m
                \<and> OPENRCT2_PLUGIN_API_VERSION < MinApiVersion m \<longrightarrow>
              r \<notin> set (plugins (run after (LoadPlugin env path s)))
              \<and> lifecycle (run after (LoadPlugin env path s)) r = Unloaded
              \<and> (\<forall>scope. PluginCall EntryStart r scope \<notin> set (trace (run after (LoadPlugin env path s))))
              \<and> (\<forall>scope. PluginCall EntryStop r scope \<notin> set (trace (run after (LoadPlugin env path s))))
              \<and> (\<forall>cb scope. PluginCall (EntryHook cb) r scope
                     \<notin> set (trace (run after (LoadPlugin env path s)))))"
proof -
  have fresh: "untouched r s"
    unfolding assms by (rule reachable_fresh)
  then have "r \<notin> set (plugins s)"
    by (simp add: untouched_def)
  then have gate: "r \<in> set (plugins (LoadPlugin env path s)) \<longleftrightarrow>
           (\<exists>m. registerPlugin (files env path) = Inr m
                \<and> MinApiVersion m \<le> OPENRCT2_PLUGIN_API_VERSION)"
    by (cases "registerPlugin (files env path)") (auto simp: LoadPlugin_plugins assms(2))
  have never: "untouched r (run after (LoadPlugin env path s))"
    if "registerPlugin (files env path) = Inr m" "OPENRCT2_PLUGIN_API_VERSION < MinApiVersion m" for m
  proof (rule run_untouched)
    show "untouched r (LoadPlugin env path s)"
      using fresh that unfolding assms(2) by (rule LoadPlugin_rejected_untouched)
    show "r < next_plugin (LoadPlugin env path s)
          \<or> next_plugin (run after (LoadPlugin env path s)) \<le> r"
      by (simp add: LoadPlugin_fields assms(2))
  qed
  show ?thesis
    using gate never by (auto simp: untouched_def lifecycle_def)
qed

theorem LoadPlugin_version_gate_witness:
  "next_plugin (run [] ScriptEngine_ctor) = 0
   \<and> registerPlugin (files env_ab ''a.js'') = Inr \<lparr>Name = ''a'', MinApiVersion = 1\<rparr>
   \<and> 1 \<le> OPENRCT2_PLUGIN_API_VERSION
   \<and> 0 \<in> set (plugins (LoadPlugin env_ab ''a.js'' (run [] ScriptEngine_ctor)))
   \<and> next_plugin (run ops_before ScriptEngine_ctor) = 1
   \<and> registerPlugin (files env_ab ''b.js'') = Inr \<lparr>Name = ''b'', MinApiVersion = 999\<rparr>
   \<and> OPENRCT2_PLUGIN_API_VERSION < 999
   \<and> 1 \<notin> set (plugins (LoadPlugin env_ab ''b.js'' (run ops_before ScriptEngine_ctor)))
   \<and> subscriptions_of 1 (hookEngine (LoadPlugin env_ab ''b.js'' (run ops_before ScriptEngine_ctor))) =
       [(''interval.tick'', ''onLoadTick'')]
   \<and> PluginCall (EntryHook ''onTick'') 0 (Some 0)
       \<in> set (trace (run ops_after (LoadPlugin env_ab ''b.js'' (run ops_before ScriptEngine_ctor))))
   \<and> 1 \<notin> set (plugins (run ops_after (LoadPlugin env_ab ''b.js'' (run ops_before ScriptEngine_ctor))))
   \<and> lifecycle (run ops_after (LoadPlugin env_ab ''b.js'' (run ops_before ScriptEngine_ctor))) 1 = Unloaded
   \<and> PluginCall EntryStart 1 (Some 1)
       \<notin> set (trace (run ops_after (LoadPlugin env_ab ''b.js'' (run ops_before ScriptEngine_ctor))))
   \<and> PluginCall EntryStop 1 (Some 1)
       \<notin> set (trace (run ops_after (LoadPlugin env_ab ''b.js'' (run ops_before ScriptEngine_ctor))))
   \<and> PluginCall (EntryHook ''onLoadTick'') 1 (Some 1)
       \<notin> set (trace (run ops_after (LoadPlugin env_ab ''b.js'' (run ops_before ScriptEngine_ctor))))"
proof -
  have first: "next_plugin (run [] ScriptEngine_ctor) = 0"
    by code_simp
  have a: "registerPlugin (files env_ab ''a.js'') = Inr \<lparr>Name = ''a'', MinApiVersion = 1\<rparr>"
    by code_simp
  have accepted: "MinApiVersion \<lparr>Name = ''a'', MinApiVersion = 1\<rparr> \<le> OPENRCT2_PLUGIN_API_VERSION"
    by code_simp
  have second: "next_plugin (run ops_before ScriptEngine_ctor) = 1"
    by code_simp
  have b: "registerPlugin (files env_ab ''b.js'') = Inr \<lparr>Name = ''b'', MinApiVersion = 999\<rparr>"
    by code_simp
  have rejected: "OPENRCT2_PLUGIN_API_VERSION < MinApiVersion \<lparr>Name = ''b'', MinApiVersion = 999\<rparr>"
    by code_simp
  have subscribed: "subscriptions_of 1
       (hookEngine (LoadPlugin env_ab ''b.js'' (run ops_before ScriptEngine_ctor))) =
       [(''interval.tick'', ''onLoadTick'')]"
    by code_simp
  have delivered: "PluginCall (EntryHook ''onTick'') 0 (Some 0)
       \<in> set (trace (run ops_after (LoadPlugin env_ab ''b.js'' (run ops_before ScriptEngine_ctor))))"
    by code_simp
  note th_a = LoadPlugin_version_gate [OF refl first [symmetric], of env_ab "''a.js''" "[]"]
  note th_b = LoadPlugin_version_gate [OF refl second [symmetric], of env_ab "''b.js''" ops_after]
  have in_registry: "0 \<in> set (plugins (LoadPlugin env_ab ''a.js'' (run [] ScriptEngine_ctor)))"
    using th_a a accepted by blast
  have not_in_registry: "1 \<notin> set (plugins (LoadPlugin env_ab ''b.js'' (run ops_before ScriptEngine_ctor)))"
    using th_b b rejected by auto
  have never: "1 \<notin> set (plugins (run ops_after (LoadPlugin env_ab ''b.js'' (run ops_before ScriptEngine_ctor))))"
    "lifecycle (run ops_after (LoadPlugin env_ab ''b.js'' (run ops_before ScriptEngine_ctor))) 1 = Unloaded"
    "PluginCall EntryStart 1 (Some 1)
       \<notin> set (trace (run ops_after (LoadPlugin env_ab ''b.js'' (run ops_before ScriptEngine_ctor))))"
    "PluginCall EntryStop 1 (Some 1)
       \<notin> set (trace (run ops_after (LoadPlugin env_ab ''b.js'' (run ops_before ScriptEngine_ctor))))"
    "PluginCall (EntryHook ''onLoadTick'') 1 (Some 1)
       \<notin> set (trace (run ops_after (LoadPlugin env_ab ''b.js'' (run ops_before ScriptEngine_ctor))))"
    using th_b b rejected by blast+
  show ?thesis
    using first a accepted second b rejected subscribed delivered in_registry not_in_registry never
    by simp
qed

end
